theory Spec2Isabelle
  imports Main
begin

section \<open>Values, rows and schema models\<close>

text \<open>
  The module \<^verbatim>\<open>nipoppy/tabular/base.py\<close> has two classes: \<^verbatim>\<open>BaseTabularModel\<close>, a
  pydantic model describing one row, and \<^verbatim>\<open>BaseTabular\<close>, a pandas DataFrame subclass.
  Python values that can sit in a cell or in a raw row are modelled by \<open>pyval\<close>:
  \<^verbatim>\<open>None\<close>, the float NaN, strings, integers and sequences (lists, tuples).
\<close>

datatype pyval = PNone | PNaN | PStr string | PInt int | PSeq "pyval list"

text \<open>A Python \<^verbatim>\<open>dict\<close> with string keys: insertion-ordered, keys unique.\<close>

type_synonym pydict = "(string \<times> pyval) list"

text \<open>
  One entry of pydantic's \<^verbatim>\<open>model_fields\<close>. A field is required exactly when it has no
  default (\<^verbatim>\<open>info.is_required()\<close>); \<open>fld_check\<close> is the declared type of the field: it
  coerces a value or rejects it with an error type.
\<close>

record field_info =
  fld_name :: string
  fld_default :: "pyval option"
  fld_check :: "pyval \<Rightarrow> string + pyval"

definition is_required :: "field_info \<Rightarrow> bool" where
  "is_required info = (fld_default info = None)"

text \<open>
  A subclass of \<^verbatim>\<open>BaseTabularModel\<close>: its fields in declaration order and its
  \<^verbatim>\<open>_validate_before_fields\<close> hook (the identity in the base class).
\<close>

record tabular_model =
  model_fields :: "field_info list"
  validate_before_fields :: "pydict \<Rightarrow> pydict"

subsection \<open>\<^verbatim>\<open>BaseTabularModel.validate_before\<close>\<close>

fun isinstance_str :: "pyval \<Rightarrow> bool" where
  "isinstance_str (PStr s) = True"
| "isinstance_str v = False"

text \<open>\<^verbatim>\<open>str\<close> is itself a \<^verbatim>\<open>typing.Sequence\<close>.\<close>

fun isinstance_Sequence :: "pyval \<Rightarrow> bool" where
  "isinstance_Sequence (PStr s) = True"
| "isinstance_Sequence (PSeq vs) = True"
| "isinstance_Sequence v = False"

text \<open>
  \<^verbatim>\<open>pd.isna\<close> on a scalar: true for \<^verbatim>\<open>None\<close> and NaN, false for every string (the empty
  one too) and every number. The guard in front of it keeps lists and tuples away.
\<close>

fun pd_isna :: "pyval \<Rightarrow> bool" where
  "pd_isna PNone = True"
| "pd_isna PNaN = True"
| "pd_isna v = False"

definition is_missing :: "pyval \<Rightarrow> bool" where
  "is_missing v = ((isinstance_str v \<or> \<not> isinstance_Sequence v) \<and> pd_isna v)"

definition optional_fields :: "tabular_model \<Rightarrow> string list" where
  "optional_fields m = map fld_name (filter (\<lambda>info. \<not> is_required info) (model_fields m))"

text \<open>
  The loop over \<^verbatim>\<open>data.items()\<close>: it returns the dictionary after the assignments
  \<^verbatim>\<open>data[key] = None\<close> together with \<^verbatim>\<open>keys_to_remove\<close>.
\<close>

fun scan_items :: "string list \<Rightarrow> pydict \<Rightarrow> pydict \<times> string list" where
  "scan_items opt [] = ([], [])"
| "scan_items opt ((key, val) # items) =
     (let (data, keys_to_remove) = scan_items opt items in
      if is_missing val then
        (if key \<in> set opt then ((key, val) # data, key # keys_to_remove)
         else ((key, PNone) # data, keys_to_remove))
      else ((key, val) # data, keys_to_remove))"

definition dict_pop :: "string \<Rightarrow> pydict \<Rightarrow> pydict" where
  "dict_pop key data = filter (\<lambda>(k, v). k \<noteq> key) data"

text \<open>
  The generic part of \<open>validate_before\<close>, up to the call of the subclass hook. The raw
  input is the dictionary of keyword arguments of \<^verbatim>\<open>self.model(**record)\<close>, so the branch
  \<^verbatim>\<open>isinstance(data, dict)\<close> is the one taken; that dictionary is a fresh one, and the
  edits made to it in place are returned as a value here.
\<close>

definition generic_validation :: "tabular_model \<Rightarrow> pydict \<Rightarrow> pydict" where
  "generic_validation m data =
     (let (data', keys_to_remove) = scan_items (optional_fields m) data
      in fold dict_pop keys_to_remove data')"

definition validate_before :: "tabular_model \<Rightarrow> pydict \<Rightarrow> pydict" where
  "validate_before m data = validate_before_fields m (generic_validation m data)"


subsection \<open>Building a record: \<^verbatim>\<open>self.model(**record).model_dump()\<close>\<close>

text \<open>
  pydantic reports one entry per failing field: the field, the error type and the input.
  Its \<^verbatim>\<open>ValidationError\<close> carries all entries of the one model instance being built.
\<close>

datatype field_error = FieldError string string "pyval option"

text \<open>
  Field validation as pydantic runs it after the \<^verbatim>\<open>mode="before"\<close> validator: the fields
  in declaration order; a key that is present goes through the field's type, an absent key
  takes the default, an absent key of a required field is the error \<^verbatim>\<open>missing\<close>; keys
  that are no field are ignored (pydantic's default \<^verbatim>\<open>extra="ignore"\<close>). The errors of
  all fields are collected before the instance is refused.
\<close>

fun validate_fields :: "field_info list \<Rightarrow> pydict \<Rightarrow> field_error list \<times> pydict" where
  "validate_fields [] data = ([], [])"
| "validate_fields (info # infos) data =
     (let (errs, vals) = validate_fields infos data in
      case map_of data (fld_name info) of
        Some v \<Rightarrow>
          (case fld_check info v of
             Inl ty \<Rightarrow> (FieldError (fld_name info) ty (Some v) # errs, vals)
           | Inr v' \<Rightarrow> (errs, (fld_name info, v') # vals))
      | None \<Rightarrow>
          (case fld_default info of
             Some d \<Rightarrow> (errs, (fld_name info, d) # vals)
           | None \<Rightarrow> (FieldError (fld_name info) ''missing'' None # errs, vals)))"

section \<open>Data frames\<close>

text \<open>
  A pandas DataFrame: the column labels, the names of the levels of the row index, one
  label tuple per row, and the cells of every row in column order. The default index
  (\<^verbatim>\<open>RangeIndex\<close>) has one unnamed level and the labels \<open>0, 1, ...\<close>; after
  \<^verbatim>\<open>set_index(cols)\<close> the levels are named after \<open>cols\<close> and the labels are the key tuples.
  A cell carries its own type; the dtypes of the columns are carried next to the frame
  where a method reads them (\<open>equals\<close> only).
\<close>

record dataframe =
  columns :: "string list"
  index_names :: "string option list"
  index :: "pyval list list"
  rows :: "pyval list list"

datatype error =
    PydanticValidationError "field_error list"
  | KeyError "string list"
  | TypeError
  | IndexError
  | ReindexDuplicateLabels
  | CannotInsert string
  | NoIndexLevels
  | NotEnoughValues
  | DtypeNotAccepted
  | SepNotAccepted
  | ReadError
  | MightBeCsv
  | ValidatingError string error
  | DuplicateRecords string "string list" dataframe
  | ColumnsNotPresent "string list" dataframe

definition model_validate_dump :: "tabular_model \<Rightarrow> pydict \<Rightarrow> error + pydict" where
  "model_validate_dump m record =
     (let (errs, vals) = validate_fields (model_fields m) (validate_before m record)
      in if errs = [] then Inr vals else Inl (PydanticValidationError errs))"

text \<open>The entries pydantic reports for one raw row (none when the row is accepted).\<close>

definition field_errors :: "tabular_model \<Rightarrow> pydict \<Rightarrow> field_error list" where
  "field_errors m record = fst (validate_fields (model_fields m) (validate_before m record))"

definition default_index :: "nat \<Rightarrow> pyval list list" where
  "default_index n = map (\<lambda>i. [PInt (int i)]) [0..<n]"

definition well_formed :: "dataframe \<Rightarrow> bool" where
  "well_formed df \<longleftrightarrow>
     distinct (columns df) \<and>
     length (index df) = length (rows df) \<and>
     list_all (\<lambda>r. length r = length (columns df)) (rows df) \<and>
     list_all (\<lambda>l. length l = length (index_names df)) (index df)"

definition positional :: "dataframe \<Rightarrow> bool" where
  "positional df \<longleftrightarrow> index_names df = [None] \<and> index df = default_index (length (rows df))"

text \<open>Position of a column label; the cells of a row under a list of columns.\<close>

fun col_pos :: "string list \<Rightarrow> string \<Rightarrow> nat" where
  "col_pos [] c = 0"
| "col_pos (x # xs) c = (if x = c then 0 else Suc (col_pos xs c))"

definition project :: "string list \<Rightarrow> string list \<Rightarrow> pyval list \<Rightarrow> pyval list" where
  "project all_cols cols r = map (\<lambda>c. r ! col_pos all_cols c) cols"

text \<open>\<^verbatim>\<open>df.to_dict(orient="records")\<close>: one fresh dictionary per row.\<close>

definition to_dict_records :: "dataframe \<Rightarrow> pydict list" where
  "to_dict_records df = map (\<lambda>r. zip (columns df) r) (rows df)"

text \<open>
  \<^verbatim>\<open>pd.DataFrame(list_of_dicts)\<close>: the columns are the keys in order of first appearance,
  a key missing from a dictionary gives NaN, the index is the default one.
\<close>

fun union_keys :: "string list \<Rightarrow> pydict list \<Rightarrow> string list" where
  "union_keys acc [] = acc"
| "union_keys acc (d # ds) =
     union_keys (acc @ filter (\<lambda>k. k \<notin> set acc) (map fst d)) ds"

definition from_records :: "pydict list \<Rightarrow> dataframe" where
  "from_records ds =
     (let cols = union_keys [] ds in
      \<lparr> columns = cols, index_names = [None], index = default_index (length ds),
        rows = map (\<lambda>d. map (\<lambda>c. case map_of d c of Some v \<Rightarrow> v | None \<Rightarrow> PNaN) cols) ds \<rparr>)"

section \<open>\<^verbatim>\<open>BaseTabular\<close>\<close>

text \<open>
  What a concrete subclass of \<^verbatim>\<open>BaseTabular\<close> fixes: its class name, its model and its
  \<^verbatim>\<open>index_cols\<close> (\<^verbatim>\<open>validate\<close> tests it against \<^verbatim>\<open>None\<close>).
\<close>

record tabular_class =
  class_name :: string
  model :: tabular_model
  index_cols :: "string list option"

definition field_names :: "tabular_class \<Rightarrow> string list" where
  "field_names cls = map fld_name (model_fields (model cls))"

text \<open>
  \<^verbatim>\<open>__init__\<close>: a frame without columns (it is then \<^verbatim>\<open>empty\<close>) gets one column per model
  field, filled with \<^verbatim>\<open>None\<close>.
\<close>

definition init :: "tabular_class \<Rightarrow> dataframe \<Rightarrow> dataframe" where
  "init cls df =
     (if (index df = [] \<or> columns df = []) \<and> length (columns df) = 0
      then df \<lparr> columns := field_names cls,
                rows := map (\<lambda>r. replicate (length (field_names cls)) PNone) (rows df) \<rparr>
      else df)"


subsection \<open>The name used in error messages\<close>

text \<open>
  \<^verbatim>\<open>" ".join(re.findall("[A-Z][^A-Z]*", name)).lower()\<close>. \<open>scan_caps\<close> returns the run of
  non-capitals the string starts with and the matches after it.
\<close>

definition is_upper :: "char \<Rightarrow> bool" where
  "is_upper c \<longleftrightarrow> (65::nat) \<le> of_char c \<and> of_char c \<le> (90::nat)"

definition lower_char :: "char \<Rightarrow> char" where
  "lower_char c = (if is_upper c then char_of (of_char c + (32::nat)) else c)"

fun scan_caps :: "string \<Rightarrow> string \<times> string list" where
  "scan_caps [] = ([], [])"
| "scan_caps (c # cs) =
     (let (pre, found) = scan_caps cs in
      if is_upper c then ([], (c # pre) # found) else (c # pre, found))"

fun join_spaces :: "string list \<Rightarrow> string" where
  "join_spaces [] = []"
| "join_spaces [w] = w"
| "join_spaces (w # ws) = w @ '' '' @ join_spaces ws"

definition name_processed :: "tabular_class \<Rightarrow> string" where
  "name_processed cls = map lower_char (join_spaces (snd (scan_caps (class_name cls))))"

subsection \<open>\<^verbatim>\<open>find_duplicates\<close> and \<^verbatim>\<open>validate\<close>\<close>

text \<open>
  Selecting rows by a boolean mask (\<^verbatim>\<open>self[mask]\<close>, \<^verbatim>\<open>self.loc[mask]\<close>): the rows keep
  their labels; a mask of the wrong length is refused.
\<close>

definition select_mask :: "dataframe \<Rightarrow> bool list \<Rightarrow> error + dataframe" where
  "select_mask df flags =
     (if length flags \<noteq> length (rows df) then Inl IndexError
      else Inr (df \<lparr> index := map snd (filter fst (zip flags (index df))),
                     rows := map snd (filter fst (zip flags (rows df))) \<rparr>))"

text \<open>
  \<^verbatim>\<open>self.duplicated(subset=cols, keep=False)\<close>: every row whose cells under \<open>subset\<close>
  occur in another row as well is marked. pandas answers an empty frame before it looks
  at \<open>subset\<close>, refuses labels that are no columns, and cannot unpack an empty subset.
\<close>

definition duplicated :: "dataframe \<Rightarrow> string list option \<Rightarrow> error + bool list" where
  "duplicated df subset_arg =
     (if index df = [] \<or> columns df = [] then Inr []
      else
        let subset = (case subset_arg of None \<Rightarrow> columns df | Some cs \<Rightarrow> cs) in
        if \<not> set subset \<subseteq> set (columns df)
          then Inl (KeyError (filter (\<lambda>c. c \<notin> set (columns df)) subset))
        else if subset = [] then Inl NotEnoughValues
        else
          let keys = map (project (columns df) subset) (rows df)
          in Inr (map (\<lambda>k. 1 < count_list keys k) keys))"

definition find_duplicates ::
  "tabular_class \<Rightarrow> dataframe \<Rightarrow> string list option \<Rightarrow> error + dataframe" where
  "find_duplicates cls self cols_arg =
     (let cols = (case cols_arg of None \<Rightarrow> index_cols cls | Some cs \<Rightarrow> Some cs) in
      case duplicated self cols of
        Inl e \<Rightarrow> Inl e
      | Inr flags \<Rightarrow> select_mask self flags)"

text \<open>
  The list comprehension \<^verbatim>\<open>[self.model(**record).model_dump() for record in records]\<close>:
  the first record that raises ends it.
\<close>

fun validate_records :: "tabular_model \<Rightarrow> pydict list \<Rightarrow> error + pydict list" where
  "validate_records m [] = Inr []"
| "validate_records m (record # records) =
     (case model_validate_dump m record of
        Inl e \<Rightarrow> Inl e
      | Inr dumped \<Rightarrow>
          (case validate_records m records of
             Inl e \<Rightarrow> Inl e
           | Inr rest \<Rightarrow> Inr (dumped # rest)))"

definition validate :: "tabular_class \<Rightarrow> dataframe \<Rightarrow> error + dataframe" where
  "validate cls self =
     (case validate_records (model cls) (to_dict_records self) of
        Inl exception \<Rightarrow> Inl (ValidatingError (name_processed cls) exception)
      | Inr dumped \<Rightarrow>
          let df_validated = init cls (from_records dumped) in
          (case index_cols cls of
             None \<Rightarrow> Inr df_validated
           | Some cols \<Rightarrow>
               (case find_duplicates cls df_validated None of
                  Inl e \<Rightarrow> Inl e
                | Inr df_duplicated \<Rightarrow>
                    if 0 < length (rows df_duplicated)
                    then Inl (DuplicateRecords (name_processed cls) cols df_duplicated)
                    else Inr df_validated)))"

subsection \<open>\<^verbatim>\<open>get_diff\<close>\<close>

text \<open>
  \<^verbatim>\<open>zip(*[df.loc[:, col] for col in cols])\<close>: one tuple per row, and nothing at all when
  \<open>cols\<close> is empty.
\<close>

definition zip_cols :: "dataframe \<Rightarrow> string list \<Rightarrow> pyval list list" where
  "zip_cols df cols = (if cols = [] then [] else map (project (columns df) cols) (rows df))"

definition get_diff ::
  "tabular_class \<Rightarrow> dataframe \<Rightarrow> dataframe \<Rightarrow> string list option \<Rightarrow> error + dataframe" where
  "get_diff cls self other cols_arg =
     (case (case cols_arg of None \<Rightarrow> index_cols cls | Some cs \<Rightarrow> Some cs) of
        None \<Rightarrow> Inl TypeError
      | Some cols \<Rightarrow>
          if \<not> set cols \<subseteq> set (columns self) then Inl (ColumnsNotPresent cols self)
          else if \<not> set cols \<subseteq> set (columns other) then Inl (ColumnsNotPresent cols other)
          else
            let index_self = zip_cols self cols;
                index_other = zip_cols other cols
            in select_mask self (map (\<lambda>k. k \<notin> set index_other) index_self))"

subsection \<open>\<^verbatim>\<open>load\<close>\<close>

text \<open>\<^verbatim>\<open>s.split(",")\<close>, for a separator of one character.\<close>

fun split_char :: "char \<Rightarrow> string \<Rightarrow> string list" where
  "split_char sep [] = [[]]"
| "split_char sep (c # cs) =
     (if c = sep then [] # split_char sep cs
      else (case split_char sep cs of
              [] \<Rightarrow> [[c]]
            | w # ws \<Rightarrow> (c # w) # ws))"

text \<open>
  \<open>kwargs\<close> are the names of the keyword arguments passed on; \<open>read\<close> is what
  \<^verbatim>\<open>pd.read_csv(fpath, dtype=str, sep="\t", **kwargs)\<close> gave: the parsed frame, or the
  exception of the reader.
\<close>

definition load ::
  "tabular_class \<Rightarrow> string list \<Rightarrow> error + dataframe \<Rightarrow> bool \<Rightarrow> error + dataframe" where
  "load cls kwargs read do_validate =
     (if ''dtype'' \<in> set kwargs then Inl DtypeNotAccepted
      else if ''sep'' \<in> set kwargs \<or> ''delimiter'' \<in> set kwargs
              \<or> ''delim_whitespace'' \<in> set kwargs then Inl SepNotAccepted
      else
        (case read of
           Inl e \<Rightarrow> Inl e
         | Inr parsed \<Rightarrow>
             let df = init cls parsed in
             if length (columns df) = 1 \<and> 1 < length (split_char CHR '','' (columns df ! 0))
             then Inl MightBeCsv
             else if do_validate then validate cls df
             else Inr df))"


subsection \<open>Objects\<close>

text \<open>
  Methods that write to \<^verbatim>\<open>self\<close> or build a new frame are told apart by a store of
  frames: a reference is a position in the store, a new object is put at its end.
\<close>

type_synonym store = "dataframe list"

definition alloc :: "store \<Rightarrow> dataframe \<Rightarrow> store \<times> nat" where
  "alloc st df = (st @ [df], length st)"

definition returning_new :: "store \<Rightarrow> error + dataframe \<Rightarrow> store \<times> (error + nat)" where
  "returning_new st res =
     (case res of
        Inl e \<Rightarrow> (st, Inl e)
      | Inr df \<Rightarrow> (let (st', r) = alloc st df in (st', Inr r)))"

subsection \<open>\<^verbatim>\<open>validate\<close> with its dictionaries as objects\<close>

text \<open>
  On its way \<^verbatim>\<open>validate\<close> creates dictionaries and \<^verbatim>\<open>validate_before\<close> edits one of
  them in place (\<^verbatim>\<open>data[key] = None\<close>, \<^verbatim>\<open>data.pop(key)\<close>). To see which objects these
  writes reach, the method is modelled a second time on a heap whose objects are frames
  and dictionaries; a reference is a position in the heap, and a new object is put at its
  end. Reading a position that holds the other kind of object does not occur; it gives
  an empty value here.
\<close>

datatype obj = Frame dataframe | Dict pydict

type_synonym heap = "obj list"

definition new_obj :: "heap \<Rightarrow> obj \<Rightarrow> heap \<times> nat" where
  "new_obj h ob = (h @ [ob], length h)"

definition get_dict :: "heap \<Rightarrow> nat \<Rightarrow> pydict" where
  "get_dict h r = (case h ! r of Dict d \<Rightarrow> d | Frame df \<Rightarrow> [])"

definition get_frame :: "heap \<Rightarrow> nat \<Rightarrow> dataframe" where
  "get_frame h r =
     (case h ! r of
        Frame df \<Rightarrow> df
      | Dict d \<Rightarrow> \<lparr> columns = [], index_names = [None], index = [], rows = [] \<rparr>)"

text \<open>\<^verbatim>\<open>data[key] = v\<close> keeps the place of a key that is present.\<close>

definition dict_setitem :: "string \<Rightarrow> pyval \<Rightarrow> pydict \<Rightarrow> pydict" where
  "dict_setitem key v d =
     (if key \<in> fst ` set d then map (\<lambda>(k, w). if k = key then (k, v) else (k, w)) d
      else d @ [(key, v)])"

definition setitem_in_place :: "heap \<Rightarrow> nat \<Rightarrow> string \<Rightarrow> pyval \<Rightarrow> heap" where
  "setitem_in_place h r key v = h[r := Dict (dict_setitem key v (get_dict h r))]"

definition pop_in_place :: "nat \<Rightarrow> string \<Rightarrow> heap \<Rightarrow> heap" where
  "pop_in_place r key h = h[r := Dict (dict_pop key (get_dict h r))]"

text \<open>
  The loop \<^verbatim>\<open>for key, value in data.items()\<close> on the dictionary at \<open>data\<close>: the keys are
  those the dictionary has when the loop starts (the loop adds and removes none), each
  value is read when its key is reached.
\<close>

fun items_loop :: "string list \<Rightarrow> nat \<Rightarrow> string list \<Rightarrow> heap \<Rightarrow> heap \<times> string list" where
  "items_loop opt data [] h = (h, [])"
| "items_loop opt data (key # keys) h =
     (case map_of (get_dict h data) key of
        None \<Rightarrow> items_loop opt data keys h
      | Some val \<Rightarrow>
          if is_missing val then
            (if key \<in> set opt
             then (let (h', keys_to_remove) = items_loop opt data keys h
                   in (h', key # keys_to_remove))
             else items_loop opt data keys (setitem_in_place h data key PNone))
          else items_loop opt data keys h)"

text \<open>
  \<open>validate_before\<close> on the dictionary at \<open>data\<close>; it returns the reference it was
  given (the hook of the base class returns its argument; a hook is taken to put its
  result in the place of the dictionary).
\<close>

definition validate_before_obj :: "tabular_model \<Rightarrow> heap \<Rightarrow> nat \<Rightarrow> heap \<times> nat" where
  "validate_before_obj m h data =
     (let (h1, keys_to_remove) =
            items_loop (optional_fields m) data (map fst (get_dict h data)) h;
          h2 = fold (pop_in_place data) keys_to_remove h1;
          h3 = h2[data := Dict (validate_before_fields m (get_dict h2 data))]
      in (h3, data))"

text \<open>
  \<^verbatim>\<open>self.model(**record).model_dump()\<close> for the dictionary at \<open>record\<close>: the call
  \<^verbatim>\<open>**record\<close> passes a new dictionary with the items of \<open>record\<close>; the \<^verbatim>\<open>before\<close>
  validator gets that one; \<^verbatim>\<open>model_dump\<close> returns a new dictionary.
\<close>

definition model_validate_dump_obj :: "tabular_model \<Rightarrow> heap \<Rightarrow> nat \<Rightarrow> heap \<times> (error + nat)" where
  "model_validate_dump_obj m h record =
     (let (h1, kwargs) = new_obj h (Dict (get_dict h record));
          (h2, data) = validate_before_obj m h1 kwargs;
          (errs, vals) = validate_fields (model_fields m) (get_dict h2 data)
      in if errs = [] then (let (h3, dumped) = new_obj h2 (Dict vals) in (h3, Inr dumped))
         else (h2, Inl (PydanticValidationError errs)))"

fun new_objs :: "heap \<Rightarrow> obj list \<Rightarrow> heap \<times> nat list" where
  "new_objs h [] = (h, [])"
| "new_objs h (ob # obs) =
     (let (h1, r) = new_obj h ob; (h2, rs) = new_objs h1 obs in (h2, r # rs))"

text \<open>\<^verbatim>\<open>self.to_dict(orient="records")\<close>: a list of new dictionaries.\<close>

definition to_dict_obj :: "heap \<Rightarrow> nat \<Rightarrow> heap \<times> nat list" where
  "to_dict_obj h self = new_objs h (map Dict (to_dict_records (get_frame h self)))"

fun validate_records_obj :: "tabular_model \<Rightarrow> heap \<Rightarrow> nat list \<Rightarrow> heap \<times> (error + nat list)" where
  "validate_records_obj m h [] = (h, Inr [])"
| "validate_records_obj m h (record # records) =
     (case model_validate_dump_obj m h record of
        (h1, Inl e) \<Rightarrow> (h1, Inl e)
      | (h1, Inr dumped) \<Rightarrow>
          (case validate_records_obj m h1 records of
             (h2, Inl e) \<Rightarrow> (h2, Inl e)
           | (h2, Inr rest) \<Rightarrow> (h2, Inr (dumped # rest))))"

text \<open>
  \<^verbatim>\<open>validate\<close> for the frame at \<open>self\<close>: it returns the reference of \<open>df_validated\<close>,
  a frame that the constructor builds from the dumped records.
\<close>

definition validate_obj :: "tabular_class \<Rightarrow> heap \<Rightarrow> nat \<Rightarrow> heap \<times> (error + nat)" where
  "validate_obj cls h self =
     (let (h1, records) = to_dict_obj h self in
      case validate_records_obj (model cls) h1 records of
        (h2, Inl exception) \<Rightarrow> (h2, Inl (ValidatingError (name_processed cls) exception))
      | (h2, Inr dumped) \<Rightarrow>
          let (h3, df_validated) =
                new_obj h2 (Frame (init cls (from_records (map (get_dict h2) dumped))))
          in (case index_cols cls of
                None \<Rightarrow> (h3, Inr df_validated)
              | Some cols \<Rightarrow>
                  (case find_duplicates cls (get_frame h3 df_validated) None of
                     Inl e \<Rightarrow> (h3, Inl e)
                   | Inr dup \<Rightarrow>
                       let (h4, df_duplicated) = new_obj h3 (Frame dup) in
                       if 0 < length (rows (get_frame h4 df_duplicated))
                       then (h4, Inl (DuplicateRecords (name_processed cls) cols
                                        (get_frame h4 df_duplicated)))
                       else (h4, Inr df_validated))))"

subsection \<open>\<^verbatim>\<open>concatenate\<close>\<close>

text \<open>
  \<^verbatim>\<open>pd.concat([self, other], ignore_index=True)\<close>: a new frame with the rows of \<open>self\<close>
  followed by those of \<open>other\<close> under the union of the columns (NaN where a frame lacks
  a column) and a fresh default index.
\<close>

definition align :: "string list \<Rightarrow> string list \<Rightarrow> pyval list \<Rightarrow> pyval list" where
  "align src cols r = map (\<lambda>c. if c \<in> set src then r ! col_pos src c else PNaN) cols"

definition pd_concat :: "dataframe \<Rightarrow> dataframe \<Rightarrow> dataframe" where
  "pd_concat a b =
     (let cols = columns a @ filter (\<lambda>c. c \<notin> set (columns a)) (columns b) in
      \<lparr> columns = cols, index_names = [None],
        index = default_index (length (rows a) + length (rows b)),
        rows = map (align (columns a) cols) (rows a) @ map (align (columns b) cols) (rows b) \<rparr>)"

definition concatenate ::
  "tabular_class \<Rightarrow> dataframe \<Rightarrow> dataframe \<Rightarrow> bool \<Rightarrow> error + dataframe" where
  "concatenate cls self other do_validate =
     (let concatenated = init cls (pd_concat self other) in
      if do_validate then validate cls concatenated else Inr concatenated)"

definition concatenate_method ::
  "tabular_class \<Rightarrow> store \<Rightarrow> nat \<Rightarrow> nat \<Rightarrow> bool \<Rightarrow> store \<times> (error + nat)" where
  "concatenate_method cls st self other do_validate =
     returning_new st (concatenate cls (st ! self) (st ! other) do_validate)"

subsection \<open>\<^verbatim>\<open>add_or_update_records\<close>\<close>

text \<open>
  \<^verbatim>\<open>self.set_index(keys, inplace=True)\<close>: the key columns leave the columns and become
  the levels of the row index. pandas raises before it changes anything: a \<^verbatim>\<open>KeyError\<close>
  for keys that are no columns, a \<^verbatim>\<open>ValueError\<close> for no keys at all.
\<close>

definition set_index :: "dataframe \<Rightarrow> string list \<Rightarrow> error + dataframe" where
  "set_index df keys =
     (if \<not> set keys \<subseteq> set (columns df)
        then Inl (KeyError (filter (\<lambda>c. c \<notin> set (columns df)) keys))
      else if keys = [] then Inl NoIndexLevels
      else
        let rest = filter (\<lambda>c. c \<notin> set keys) (columns df) in
        Inr \<lparr> columns = rest, index_names = map Some keys,
              index = map (project (columns df) keys) (rows df),
              rows = map (project (columns df) rest) (rows df) \<rparr>)"

text \<open>
  \<^verbatim>\<open>self.sort_index(inplace=True)\<close>: the rows in ascending order of their labels, missing
  labels last, rows with equal labels in their previous order. Labels of one level that mix
  strings and numbers cannot be compared (\<^verbatim>\<open>TypeError\<close>).
\<close>

fun str_le :: "string \<Rightarrow> string \<Rightarrow> bool" where
  "str_le [] ys = True"
| "str_le (x # xs) [] = False"
| "str_le (x # xs) (y # ys) = (if x = y then str_le xs ys else (of_char x :: nat) < of_char y)"

fun val_le :: "pyval \<Rightarrow> pyval \<Rightarrow> bool" where
  "val_le (PInt a) (PInt b) = (a \<le> b)"
| "val_le (PStr a) (PStr b) = str_le a b"
| "val_le a b = pd_isna b"

fun label_le :: "pyval list \<Rightarrow> pyval list \<Rightarrow> bool" where
  "label_le [] bs = True"
| "label_le (a # as) [] = False"
| "label_le (a # as) (b # bs) = (if a = b then label_le as bs else val_le a b)"

fun int_or_na :: "pyval \<Rightarrow> bool" where
  "int_or_na (PInt i) = True"
| "int_or_na v = pd_isna v"

fun str_or_na :: "pyval \<Rightarrow> bool" where
  "str_or_na (PStr s) = True"
| "str_or_na v = pd_isna v"

definition sortable :: "dataframe \<Rightarrow> bool" where
  "sortable df \<longleftrightarrow>
     list_all (\<lambda>i. list_all (\<lambda>l. int_or_na (l ! i)) (index df)
                 \<or> list_all (\<lambda>l. str_or_na (l ! i)) (index df))
       [0..<length (index_names df)]"

fun insert_row ::
  "pyval list \<times> pyval list \<Rightarrow> (pyval list \<times> pyval list) list \<Rightarrow> (pyval list \<times> pyval list) list" where
  "insert_row p [] = [p]"
| "insert_row p (q # qs) = (if label_le (fst p) (fst q) then p # q # qs else q # insert_row p qs)"

definition sort_index :: "dataframe \<Rightarrow> error + dataframe" where
  "sort_index df =
     (if \<not> sortable df then Inl TypeError
      else
        let sorted_rows = foldr insert_row (zip (index df) (rows df)) []
        in Inr (df \<lparr> index := map fst sorted_rows, rows := map snd sorted_rows \<rparr>))"

text \<open>
  \<^verbatim>\<open>self.loc[idx, col] = value\<close> for a column that exists: every row labelled \<open>idx\<close> gets
  the value; when no row has that label, a row is appended whose other cells are NaN.
\<close>

definition loc_set :: "dataframe \<Rightarrow> pyval list \<Rightarrow> string \<Rightarrow> pyval \<Rightarrow> dataframe" where
  "loc_set df idx col v =
     (let j = col_pos (columns df) col in
      if idx \<in> set (index df)
      then df \<lparr> rows := map (\<lambda>(l, r). if l = idx then r[j := v] else r)
                              (zip (index df) (rows df)) \<rparr>
      else df \<lparr> index := index df @ [idx],
                rows := rows df @ [(replicate (length (columns df)) PNaN)[j := v]] \<rparr>)"

text \<open>
  \<^verbatim>\<open>self.reset_index(inplace=True)\<close>: the levels of the index are inserted in front of the
  columns, last level first, under their names (an unnamed level is called \<^verbatim>\<open>index\<close>,
  \<^verbatim>\<open>level_0\<close>, \<^verbatim>\<open>level_1\<close>, ...); inserting a label that is already a column raises and
  leaves the frame as it is at that point. Then the index becomes the default one.
\<close>

fun digits :: "nat \<Rightarrow> nat \<Rightarrow> string" where
  "digits 0 n = []"
| "digits (Suc fuel) n =
     (if n < 10 then [char_of (48 + n)]
      else digits fuel (n div 10) @ [char_of (48 + n mod 10)])"

definition str_nat :: "nat \<Rightarrow> string" where
  "str_nat n = digits (Suc n) n"

definition level_names :: "dataframe \<Rightarrow> string list" where
  "level_names df =
     map (\<lambda>(i, name).
            case name of
              Some s \<Rightarrow> s
            | None \<Rightarrow>
                if length (index_names df) = 1
                then (if ''index'' \<in> set (columns df) then ''level_0'' else ''index'')
                else ''level_'' @ str_nat i)
         (zip [0..<length (index_names df)] (index_names df))"

fun insert_levels :: "(string \<times> pyval list) list \<Rightarrow> dataframe \<Rightarrow> dataframe \<times> error option" where
  "insert_levels [] df = (df, None)"
| "insert_levels ((name, vals) # levels) df =
     (if name \<in> set (columns df) then (df, Some (CannotInsert name))
      else insert_levels levels
             (df \<lparr> columns := name # columns df,
                   rows := map (\<lambda>(v, r). v # r) (zip vals (rows df)) \<rparr>))"

definition reset_index :: "dataframe \<Rightarrow> dataframe \<times> error option" where
  "reset_index df =
     (let names = level_names df;
          to_insert = map (\<lambda>i. (names ! i, map (\<lambda>l. l ! i) (index df)))
                          (rev [0..<length (index_names df)])
      in case insert_levels to_insert df of
           (df', Some e) \<Rightarrow> (df', Some e)
         | (df', None) \<Rightarrow>
             (df' \<lparr> index_names := [None], index := default_index (length (rows df')) \<rparr>, None))"

text \<open>Subscription \<^verbatim>\<open>record[col]\<close> raises \<^verbatim>\<open>KeyError\<close> for an absent key.\<close>

definition dict_get :: "pydict \<Rightarrow> string \<Rightarrow> error + pyval" where
  "dict_get d k = (case map_of d k of None \<Rightarrow> Inl (KeyError [k]) | Some v \<Rightarrow> Inr v)"

fun dict_get_all :: "pydict \<Rightarrow> string list \<Rightarrow> error + pyval list" where
  "dict_get_all d [] = Inr []"
| "dict_get_all d (k # ks) =
     (case dict_get d k of
        Inl e \<Rightarrow> Inl e
      | Inr v \<Rightarrow> (case dict_get_all d ks of Inl e \<Rightarrow> Inl e | Inr vs \<Rightarrow> Inr (v # vs)))"

text \<open>
  The inner loop \<^verbatim>\<open>for col in non_index_cols\<close>, on the frame while it is indexed by the
  key columns. It returns the frame as the loop left it and the exception that ended it,
  if any. (\<^verbatim>\<open>non_index_cols\<close> is a Python set; it is taken here in column order.)
\<close>

fun update_cols ::
  "string list \<Rightarrow> pydict \<Rightarrow> string list \<Rightarrow> dataframe \<Rightarrow> dataframe \<times> error option" where
  "update_cols icols record [] df = (df, None)"
| "update_cols icols record (col # cols) df =
     (case sort_index df of
        Inl e \<Rightarrow> (df, Some e)
      | Inr df_sorted \<Rightarrow>
          (case dict_get_all record icols of
             Inl e \<Rightarrow> (df_sorted, Some e)
           | Inr idx \<Rightarrow>
               (case dict_get record col of
                  Inl e \<Rightarrow> (df_sorted, Some e)
                | Inr v \<Rightarrow> update_cols icols record cols (loc_set df_sorted idx col v))))"

text \<open>The outer loop \<^verbatim>\<open>for record in records\<close>.\<close>

fun update_records ::
  "tabular_model \<Rightarrow> bool \<Rightarrow> string list \<Rightarrow> string list \<Rightarrow> pydict list \<Rightarrow> dataframe
     \<Rightarrow> dataframe \<times> error option" where
  "update_records m do_validate icols non_index_cols [] df = (df, None)"
| "update_records m do_validate icols non_index_cols (record # records) df =
     (case (if do_validate then model_validate_dump m record else Inr record) of
        Inl e \<Rightarrow> (df, Some e)
      | Inr record' \<Rightarrow>
          (case update_cols icols record' non_index_cols df of
             (df', Some e) \<Rightarrow> (df', Some e)
           | (df', None) \<Rightarrow> update_records m do_validate icols non_index_cols records df'))"

datatype records_arg = OneRecord pydict | RecordList "pydict list"

text \<open>
  The whole method, on the frame that is \<^verbatim>\<open>self\<close>: the frame after the call, and the
  exception the call raised, if any. An exception of the \<^verbatim>\<open>finally\<close> block replaces the
  one of the loop.
\<close>

definition add_or_update_records ::
  "tabular_class \<Rightarrow> dataframe \<Rightarrow> records_arg \<Rightarrow> bool \<Rightarrow> dataframe \<times> error option" where
  "add_or_update_records cls self records_arg do_validate =
     (let records = (case records_arg of OneRecord d \<Rightarrow> [d] | RecordList ds \<Rightarrow> ds) in
      case index_cols cls of
        None \<Rightarrow> (self, Some TypeError)
      | Some icols \<Rightarrow>
          let non_index_cols = filter (\<lambda>c. c \<notin> set icols) (columns self) in
          (case set_index self icols of
             Inl e \<Rightarrow> (self, Some e)
           | Inr keyed \<Rightarrow>
               let (looped, raised) =
                     update_records (model cls) do_validate icols non_index_cols records keyed;
                   (restored, raised') = reset_index looped
               in (restored, (case raised' of Some e \<Rightarrow> Some e | None \<Rightarrow> raised))))"

text \<open>
  The shape of the frame between \<^verbatim>\<open>set_index\<close> and \<^verbatim>\<open>reset_index\<close>: the key columns
  \<open>icols\<close> are the levels of the index, the columns are the other ones.
\<close>

definition keyed :: "string list \<Rightarrow> string list \<Rightarrow> dataframe \<Rightarrow> bool" where
  "keyed icols ncols df \<longleftrightarrow>
     columns df = ncols \<and> index_names df = map Some icols \<and>
     length (index df) = length (rows df) \<and>
     (\<forall>r\<in>set (rows df). length r = length ncols)"

text \<open>The method writes to \<^verbatim>\<open>self\<close> and returns \<^verbatim>\<open>self\<close>.\<close>

definition add_or_update_records_method ::
  "tabular_class \<Rightarrow> store \<Rightarrow> nat \<Rightarrow> records_arg \<Rightarrow> bool \<Rightarrow> store \<times> (error + nat)" where
  "add_or_update_records_method cls st self records_arg do_validate =
     (let (df, raised) = add_or_update_records cls (st ! self) records_arg do_validate
      in (st[self := df], (case raised of Some e \<Rightarrow> Inl e | None \<Rightarrow> Inr self)))"

subsection \<open>\<^verbatim>\<open>equals\<close>\<close>

text \<open>
  \<open>equals\<close> is \<^verbatim>\<open>pd.testing.assert_frame_equal(self, other, check_like=True)\<close> with every
  other option at its default, turned into a boolean. That function also reads the dtype
  of each column, so a frame comes here with the dtypes of its columns, in column order.
  A column of dtype \<^verbatim>\<open>int64\<close> holds integers only; a column of dtype \<^verbatim>\<open>float64\<close> holds
  numbers and NaN (of the numbers only the integral ones are values of \<open>pyval\<close>); a column
  of dtype \<^verbatim>\<open>object\<close> holds anything.
\<close>

datatype dtype = Int64 | Float64 | Object

record typed_frame =
  frame :: dataframe
  dtypes :: "dtype list"











section \<open>A table type for the examples\<close>

text \<open>
  The schema of the scenarios: \<open>id\<close> is required, \<open>name\<close> and \<open>value\<close> are optional with
  default \<^verbatim>\<open>None\<close>; the key of the table is \<open>id\<close>.
\<close>

definition check_int :: "pyval \<Rightarrow> string + pyval" where
  "check_int v = (case v of PInt i \<Rightarrow> Inr (PInt i) | _ \<Rightarrow> Inl ''int_type'')"

definition check_opt_str :: "pyval \<Rightarrow> string + pyval" where
  "check_opt_str v =
     (case v of PStr s \<Rightarrow> Inr (PStr s) | PNone \<Rightarrow> Inr PNone | _ \<Rightarrow> Inl ''string_type'')"

definition example_fields :: "pyval \<Rightarrow> field_info list" where
  "example_fields dflt =
     [\<lparr> fld_name = ''id'', fld_default = None, fld_check = check_int \<rparr>,
      \<lparr> fld_name = ''name'', fld_default = Some PNone, fld_check = check_opt_str \<rparr>,
      \<lparr> fld_name = ''value'', fld_default = Some dflt, fld_check = check_opt_str \<rparr>]"

definition example_model :: tabular_model where
  "example_model =
     \<lparr> model_fields = example_fields PNone, validate_before_fields = (\<lambda>data. data) \<rparr>"

definition example_class :: tabular_class where
  "example_class =
     \<lparr> class_name = ''ExampleTable'', model = example_model, index_cols = Some [''id''] \<rparr>"

definition one_row :: dataframe where
  "one_row =
     \<lparr> columns = [''id'', ''name'', ''value''], index_names = [None], index = [[PInt 0]],
       rows = [[PInt 1, PStr ''A'', PStr ''10'']] \<rparr>"

definition two_rows :: dataframe where
  "two_rows =
     \<lparr> columns = [''id'', ''name'', ''value''], index_names = [None],
       index = [[PInt 0], [PInt 1]],
       rows = [[PInt 2, PStr ''B'', PStr ''20''], [PInt 1, PStr ''A'', PStr ''10'']] \<rparr>"

definition bad_rows :: dataframe where
  "bad_rows =
     \<lparr> columns = [''id'', ''name'', ''value''], index_names = [None],
       index = [[PInt 0], [PInt 1]],
       rows = [[PStr ''x'', PInt 3, PNaN], [PStr ''y'', PNone, PInt 4]] \<rparr>"

definition same_key_rows :: dataframe where
  "same_key_rows =
     \<lparr> columns = [''id'', ''name'', ''value''], index_names = [None],
       index = [[PInt 0], [PInt 1], [PInt 2]],
       rows = [[PInt 1, PStr ''A'', PNaN], [PInt 2, PStr ''B'', PNaN],
               [PInt 1, PStr ''C'', PStr ''30'']] \<rparr>"

definition late_failure :: dataframe where
  "late_failure =
     \<lparr> columns = [''id'', ''name'', ''value''], index_names = [None],
       index = [[PInt 0], [PInt 1], [PInt 2]],
       rows = [[PInt 1, PStr ''A'', PNaN], [PStr ''y'', PNone, PInt 4],
               [PStr ''z'', PInt 5, PNaN]] \<rparr>"

definition third_row :: dataframe where
  "third_row =
     \<lparr> columns = [''id'', ''name'', ''value''], index_names = [None], index = [[PInt 0]],
       rows = [[PInt 3, PStr ''C'', PStr ''30'']] \<rparr>"

definition rows_swapped :: dataframe where
  "rows_swapped =
     \<lparr> columns = [''id'', ''name'', ''value''], index_names = [None],
       index = [[PInt 0], [PInt 1]],
       rows = [[PInt 1, PStr ''A'', PStr ''10''], [PInt 2, PStr ''B'', PStr ''20'']] \<rparr>"

definition typed_two_rows :: typed_frame where
  "typed_two_rows = \<lparr> frame = two_rows, dtypes = [Int64, Object, Object] \<rparr>"

definition typed_rows_swapped :: typed_frame where
  "typed_rows_swapped = \<lparr> frame = rows_swapped, dtypes = [Int64, Object, Object] \<rparr>"

definition columns_permuted :: typed_frame where
  "columns_permuted =
     \<lparr> frame = \<lparr> columns = [''name'', ''value'', ''id''], index_names = [None],
                 index = [[PInt 0], [PInt 1]],
                 rows = [[PStr ''B'', PStr ''20'', PInt 2], [PStr ''A'', PStr ''10'', PInt 1]] \<rparr>,
       dtypes = [Object, Object, Int64] \<rparr>"

definition empty_frame :: dataframe where
  "empty_frame = \<lparr> columns = [], index_names = [None], index = [], rows = [] \<rparr>"

lemmas example_defs =
  example_class_def example_model_def example_fields_def check_int_def check_opt_str_def
  one_row_def two_rows_def empty_frame_def bad_rows_def same_key_rows_def late_failure_def third_row_def
  rows_swapped_def typed_two_rows_def typed_rows_swapped_def columns_permuted_def

section \<open>Normalisation of a raw row\<close>

lemma scan_items_lookup:
  "map_of (fst (scan_items opt data)) key =
     (case map_of data key of
        None \<Rightarrow> None
      | Some v \<Rightarrow> if is_missing v \<and> key \<notin> set opt then Some PNone else Some v)"
  by (induction data) (auto split: prod.splits)

lemma scan_items_removed:
  "distinct (map fst data) \<Longrightarrow>
   key \<in> set (snd (scan_items opt data)) \<longleftrightarrow>
     (case map_of data key of None \<Rightarrow> False | Some v \<Rightarrow> is_missing v \<and> key \<in> set opt)"
proof (induction data)
  case Nil
  then show ?case by simp
next
  case (Cons kv data)
  obtain k v where kv: "kv = (k, v)" by (cases kv)
  have absent: "map_of data k = None"
    using Cons.prems kv by (simp add: map_of_eq_None_iff)
  obtain d rm where s: "scan_items opt data = (d, rm)"
    by (cases "scan_items opt data")
  have ih: "key \<in> set rm \<longleftrightarrow>
     (case map_of data key of None \<Rightarrow> False | Some v \<Rightarrow> is_missing v \<and> key \<in> set opt)"
    using Cons s by simp
  show ?case
  proof (cases "key = k")
    case True
    then have "key \<notin> set rm"
      using ih absent by simp
    then show ?thesis
      using True kv s by simp
  next
    case False
    then show ?thesis
      using ih kv s by simp
  qed
qed

lemma map_of_dict_pop:
  "map_of (dict_pop k d) key = (if key = k then None else map_of d key)"
  by (induction d) (auto simp: dict_pop_def)

lemma map_of_fold_dict_pop:
  "map_of (fold dict_pop ks d) key = (if key \<in> set ks then None else map_of d key)"
  by (induction ks arbitrary: d) (auto simp: map_of_dict_pop)

text \<open>
  Claim C5, as the code has it. The generic normalisation only visits the keys that are
  present in the raw row. A present key whose value is missing (\<^verbatim>\<open>None\<close> or NaN, never a
  string or a sequence) is removed when the field is optional and is set to \<^verbatim>\<open>None\<close>
  otherwise; a present key with any other value is kept; a key that is absent from the raw
  row stays absent, whether its field is required or not.
\<close>

theorem generic_validation_fields:
  assumes "distinct (map fst data)"
  shows "map_of (generic_validation m data) key =
     (case map_of data key of
        None \<Rightarrow> None
      | Some v \<Rightarrow>
          if is_missing v then (if key \<in> set (optional_fields m) then None else Some PNone)
          else Some v)"
proof -
  obtain d rm where s: "scan_items (optional_fields m) data = (d, rm)"
    by (cases "scan_items (optional_fields m) data")
  have d: "map_of d key =
     (case map_of data key of
        None \<Rightarrow> None
      | Some v \<Rightarrow> if is_missing v \<and> key \<notin> set (optional_fields m) then Some PNone else Some v)"
    using scan_items_lookup [of "optional_fields m" data key] s by simp
  have rm: "key \<in> set rm \<longleftrightarrow>
     (case map_of data key of None \<Rightarrow> False | Some v \<Rightarrow> is_missing v \<and> key \<in> set (optional_fields m))"
    using scan_items_removed [OF assms, of key "optional_fields m"] s by simp
  have "map_of (generic_validation m data) key = (if key \<in> set rm then None else map_of d key)"
    by (simp add: generic_validation_def s map_of_fold_dict_pop)
  then show ?thesis
    using d rm by (auto split: option.splits)
qed

text \<open>
  The theorem at a raw row whose required \<open>id\<close> and optional \<open>name\<close> are both NaN: \<open>id\<close>
  is set to \<^verbatim>\<open>None\<close>.
\<close>

theorem generic_validation_fields_witness:
  "distinct (map fst [(''id'', PNaN), (''name'', PNaN), (''value'', PStr ''10'')]) \<and>
   map_of (generic_validation example_model
             [(''id'', PNaN), (''name'', PNaN), (''value'', PStr ''10'')]) ''id'' = Some PNone"
  using generic_validation_fields
          [of "[(''id'', PNaN), (''name'', PNaN), (''value'', PStr ''10'')]" example_model "''id''"]
  by (simp add: is_missing_def optional_fields_def is_required_def example_defs)

text \<open>
  Claim C5 as stated fails for a required field that is absent from the raw row: \<open>id\<close> is
  required, the raw row is empty, and the normalised row has no \<open>id\<close> at all.
\<close>

theorem generic_validation_absent_required_counterexample:
  "''id'' \<notin> set (optional_fields example_model) \<and>
   map_of (generic_validation example_model []) ''id'' \<noteq> Some PNone"
  by (simp add: generic_validation_def optional_fields_def is_required_def example_defs)

section \<open>Loading\<close>

lemma split_char_nonempty: "split_char sep s \<noteq> []"
  by (induction s) (auto split: list.splits)

lemma split_char_parts: "1 < length (split_char sep s) \<longleftrightarrow> sep \<in> set s"
proof (induction s)
  case Nil
  then show ?case by simp
next
  case (Cons c cs)
  then show ?case
    using split_char_nonempty [of sep cs]
    by (cases "split_char sep cs") auto
qed

lemma select_mask_not_csv: "select_mask df flags \<noteq> Inl MightBeCsv"
  by (simp add: select_mask_def)

lemma duplicated_not_csv: "duplicated df cols \<noteq> Inl MightBeCsv"
  by (simp add: duplicated_def Let_def)

lemma find_duplicates_not_csv: "find_duplicates cls df cols \<noteq> Inl MightBeCsv"
  using duplicated_not_csv [of df] select_mask_not_csv [of df]
  by (auto simp: find_duplicates_def Let_def split: sum.splits)

lemma validate_not_csv: "validate cls df \<noteq> Inl MightBeCsv"
  using find_duplicates_not_csv [of cls]
  by (auto simp: validate_def Let_def split: sum.splits option.splits)

lemma init_with_columns: "columns df \<noteq> [] \<Longrightarrow> init cls df = df"
  by (simp add: init_def)

text \<open>
  Claim C9. When the keyword arguments are accepted and the reader returns a frame (which
  always has at least one column), \<open>load\<close> raises the might-be-a-CSV error exactly when
  the frame has one column and the label of that column contains a comma; neither the
  \<open>validate\<close> flag nor validation itself can produce or hide this error.
\<close>

theorem load_might_be_csv:
  assumes "''dtype'' \<notin> set kwargs" and "''sep'' \<notin> set kwargs"
    and "''delimiter'' \<notin> set kwargs" and "''delim_whitespace'' \<notin> set kwargs"
    and "columns parsed \<noteq> []"
  shows "load cls kwargs (Inr parsed) do_validate = Inl MightBeCsv \<longleftrightarrow>
           length (columns parsed) = 1 \<and> CHR '','' \<in> set (columns parsed ! 0)"
  using assms validate_not_csv [of cls parsed]
    split_char_parts [of "CHR '',''" "columns parsed ! 0"]
  by (auto simp: load_def init_with_columns)

text \<open>A comma-separated header read with the tab separator is one column and is refused.\<close>

theorem load_might_be_csv_witness:
  "''dtype'' \<notin> set [''header''] \<and> ''sep'' \<notin> set [''header''] \<and>
   ''delimiter'' \<notin> set [''header''] \<and> ''delim_whitespace'' \<notin> set [''header''] \<and>
   columns (empty_frame \<lparr> columns := [''id,name,value''] \<rparr>) \<noteq> [] \<and>
   load example_class [''header''] (Inr (empty_frame \<lparr> columns := [''id,name,value''] \<rparr>)) True
     = Inl MightBeCsv"
  using load_might_be_csv
    [of "[''header'']" "empty_frame \<lparr> columns := [''id,name,value''] \<rparr>" example_class True]
  by (simp add: empty_frame_def)

section \<open>Validation of a table\<close>

lemma model_validate_dump_refused:
  "field_errors m record \<noteq> [] \<Longrightarrow>
   model_validate_dump m record = Inl (PydanticValidationError (field_errors m record))"
  by (cases "validate_fields (model_fields m) (validate_before m record)")
     (simp add: model_validate_dump_def field_errors_def)

lemma model_validate_dump_accepted:
  "field_errors m record = [] \<Longrightarrow>
   model_validate_dump m record
     = Inr (snd (validate_fields (model_fields m) (validate_before m record)))"
  by (cases "validate_fields (model_fields m) (validate_before m record)")
     (simp add: model_validate_dump_def field_errors_def)

lemma validate_records_first_failure:
  assumes "i < length records"
    and "\<forall>j<i. field_errors m (records ! j) = []"
    and "field_errors m (records ! i) \<noteq> []"
  shows "validate_records m records
           = Inl (PydanticValidationError (field_errors m (records ! i)))"
  using assms
proof (induction records arbitrary: i)
  case Nil
  then show ?case by simp
next
  case (Cons r records)
  show ?case
  proof (cases i)
    case 0
    then show ?thesis
      using Cons.prems by (simp add: model_validate_dump_refused)
  next
    case (Suc k)
    have head: "field_errors m r = []"
      using Cons.prems(2) Suc by auto
    have "validate_records m records
            = Inl (PydanticValidationError (field_errors m (records ! k)))"
    proof (rule Cons.IH)
      show "k < length records" using Cons.prems(1) Suc by simp
      show "\<forall>j<k. field_errors m (records ! j) = []"
        using Cons.prems(2) Suc by auto
      show "field_errors m (records ! k) \<noteq> []"
        using Cons.prems(3) Suc by simp
    qed
    then show ?thesis
      using head Suc by (simp add: model_validate_dump_accepted)
  qed
qed

text \<open>
  Claim C2, as the code has it. The rows are validated one after the other inside one
  \<^verbatim>\<open>try\<close>; the first row that pydantic refuses ends the comprehension. \<open>validate\<close> then
  fails with one error that names the table and carries every field-level failure of that
  first failing row, and nothing about the rows after it.
\<close>

theorem validate_reports_first_failing_row:
  assumes "i < length (rows self)"
    and "\<forall>j<i. field_errors (model cls) (to_dict_records self ! j) = []"
    and "field_errors (model cls) (to_dict_records self ! i) \<noteq> []"
  shows "validate cls self
           = Inl (ValidatingError (name_processed cls)
                    (PydanticValidationError
                       (field_errors (model cls) (to_dict_records self ! i))))"
proof -
  have "i < length (to_dict_records self)"
    using assms(1) by (simp add: to_dict_records_def)
  then have "validate_records (model cls) (to_dict_records self)
               = Inl (PydanticValidationError
                        (field_errors (model cls) (to_dict_records self ! i)))"
    using assms(2,3) by (rule validate_records_first_failure)
  then show ?thesis
    by (simp add: validate_def)
qed

lemma late_failure_errors:
  "field_errors example_model (to_dict_records late_failure ! 0) = []"
  "field_errors example_model (to_dict_records late_failure ! 1)
     = [FieldError ''id'' ''int_type'' (Some (PStr ''y'')),
        FieldError ''value'' ''string_type'' (Some (PInt 4))]"
  by code_simp+

lemma name_processed_example: "name_processed example_class = ''example table''"
  by code_simp

text \<open>
  A table whose first row is accepted and whose second and third rows are not: the error
  is the one of the second row, with both of its failing fields.
\<close>

theorem validate_reports_first_failing_row_witness:
  "1 < length (rows late_failure) \<and>
   field_errors (model example_class) (to_dict_records late_failure ! 0) = [] \<and>
   field_errors (model example_class) (to_dict_records late_failure ! 1) \<noteq> [] \<and>
   validate example_class late_failure
     = Inl (ValidatingError ''example table''
              (PydanticValidationError
                 [FieldError ''id'' ''int_type'' (Some (PStr ''y'')),
                  FieldError ''value'' ''string_type'' (Some (PInt 4))]))"
  using validate_reports_first_failing_row [of 1 late_failure example_class]
    late_failure_errors name_processed_example
  by (simp add: example_class_def late_failure_def)

lemma bad_rows_errors:
  "field_errors example_model (to_dict_records bad_rows ! 0)
     = [FieldError ''id'' ''int_type'' (Some (PStr ''x'')),
        FieldError ''name'' ''string_type'' (Some (PInt 3))]"
  "field_errors example_model (to_dict_records bad_rows ! 1)
     = [FieldError ''id'' ''int_type'' (Some (PStr ''y'')),
        FieldError ''value'' ''string_type'' (Some (PInt 4))]"
  by code_simp+

lemma validate_bad_rows:
  "validate example_class bad_rows
     = Inl (ValidatingError ''example table''
              (PydanticValidationError
                 [FieldError ''id'' ''int_type'' (Some (PStr ''x'')),
                  FieldError ''name'' ''string_type'' (Some (PInt 3))]))"
  by code_simp

text \<open>
  Claim C2 as stated fails on a table with two failing rows: the second row has failing
  fields of its own (\<open>id\<close> and \<open>value\<close>), and the error of \<open>validate\<close> holds the two
  failures of the first row only.
\<close>

theorem validate_all_failing_rows_counterexample:
  "field_errors (model example_class) (to_dict_records bad_rows ! 0) \<noteq> [] \<and>
   field_errors (model example_class) (to_dict_records bad_rows ! 1)
     = [FieldError ''id'' ''int_type'' (Some (PStr ''y'')),
        FieldError ''value'' ''string_type'' (Some (PInt 4))] \<and>
   validate example_class bad_rows
     = Inl (ValidatingError ''example table''
              (PydanticValidationError
                 [FieldError ''id'' ''int_type'' (Some (PStr ''x'')),
                  FieldError ''name'' ''string_type'' (Some (PInt 3))]))"
  using bad_rows_errors validate_bad_rows by (simp add: example_class_def)

lemma validate_fields_keys:
  "fst (validate_fields infos data) = [] \<Longrightarrow>
   map fst (snd (validate_fields infos data)) = map fld_name infos"
  by (induction infos) (auto split: prod.splits option.splits sum.splits)

lemma validate_records_keys:
  "validate_records m records = Inr dumped \<Longrightarrow>
   \<forall>d\<in>set dumped. map fst d = map fld_name (model_fields m)"
proof (induction records arbitrary: dumped)
  case Nil
  then show ?case by simp
next
  case (Cons r records)
  show ?case
  proof (cases "field_errors m r = []")
    case True
    then show ?thesis
      using Cons validate_fields_keys [of "model_fields m" "validate_before m r"]
      by (auto simp: model_validate_dump_accepted field_errors_def split: sum.splits)
  next
    case False
    then show ?thesis
      using Cons.prems by (simp add: model_validate_dump_refused)
  qed
qed

lemma union_keys_known:
  "\<forall>d\<in>set ds. set (map fst d) \<subseteq> set acc \<Longrightarrow> union_keys acc ds = acc"
proof (induction ds arbitrary: acc)
  case Nil
  then show ?case by simp
next
  case (Cons d ds)
  have "filter (\<lambda>k. k \<notin> set acc) (map fst d) = []"
    using Cons.prems by (auto simp: filter_empty_conv)
  then show ?case
    using Cons by simp
qed

lemma union_keys_same:
  "ds \<noteq> [] \<Longrightarrow> \<forall>d\<in>set ds. map fst d = ks \<Longrightarrow> union_keys [] ds = ks"
  by (cases ds) (auto simp: union_keys_known)

lemma lookup_own_keys:
  "distinct (map fst d) \<Longrightarrow>
   map (\<lambda>c. case map_of d c of Some v \<Rightarrow> v | None \<Rightarrow> PNaN) (map fst d) = map snd d"
proof (induction d)
  case Nil
  then show ?case by simp
next
  case (Cons kv d)
  then show ?case
   by (cases kv) (auto simp: image_iff)
qed

lemma validated_frame:
  assumes "validate_records (model cls) records = Inr dumped"
    and "distinct (field_names cls)"
  shows "init cls (from_records dumped)
           = \<lparr> columns = field_names cls, index_names = [None],
               index = default_index (length dumped), rows = map (map snd) dumped \<rparr>"
proof -
  have keys: "\<forall>d\<in>set dumped. map fst d = field_names cls"
    using validate_records_keys [OF assms(1)] by (simp add: field_names_def)
  show ?thesis
  proof (cases "dumped = []")
    case True
    then show ?thesis
      by (simp add: from_records_def init_def default_index_def)
  next
    case False
    have cols: "union_keys [] dumped = field_names cls"
      using False keys by (rule union_keys_same)
    have cells: "map (\<lambda>d. map (\<lambda>c. case map_of d c of Some v \<Rightarrow> v | None \<Rightarrow> PNaN)
                              (field_names cls)) dumped
                   = map (map snd) dumped"
    proof (rule map_cong [OF refl])
      fix d assume "d \<in> set dumped"
      then have "map fst d = field_names cls" using keys by simp
      then show "map (\<lambda>c. case map_of d c of Some v \<Rightarrow> v | None \<Rightarrow> PNaN) (field_names cls)
                   = map snd d"
        using lookup_own_keys [of d] assms(2) by simp
    qed
    have shape: "from_records dumped
           = \<lparr> columns = field_names cls, index_names = [None],
               index = default_index (length dumped), rows = map (map snd) dumped \<rparr>"
      by (simp add: from_records_def cols cells)
    show ?thesis
    proof (cases "field_names cls = []")
      case True
      have "\<forall>d\<in>set dumped. d = []"
        using keys True by simp
      then have "map (map snd) dumped = map (\<lambda>r. []) (map (map snd) dumped)"
        by (induction dumped) auto
      then show ?thesis
        using True by (simp add: shape init_def)
    next
      case False
      then show ?thesis
        by (simp add: shape init_def)
    qed
  qed
qed

lemma distinct_count_list: "distinct xs \<longleftrightarrow> (\<forall>x\<in>set xs. \<not> 1 < count_list xs x)"
proof (induction xs)
  case Nil
  then show ?case by simp
next
  case (Cons a xs)
  show ?case
  proof (cases "a \<in> set xs")
    case True
    then have "0 < count_list xs a"
      using count_list_0_iff [of xs a] by auto
    then show ?thesis
      using True by auto
  next
    case False
    then have "count_list xs a = 0"
      by (simp add: count_list_0_iff)
    then show ?thesis
      using False Cons by auto
  qed
qed

lemma select_flags_rows:
  "map snd (filter fst (zip (map P xs) xs)) = filter P xs"
  by (induction xs) auto

text \<open>
  Claim C4. Let the rows of a table all be accepted by the model, let the key of the table
  type be a non-empty list of model fields, and let \<open>keys\<close> be the key tuples of the
  validated rows. Then \<open>validate\<close> fails with the duplicate-records error, which names
  the table and the key columns, exactly when some key tuple occurs more than once; the
  frame in that error holds every validated row whose key tuple occurs more than once (all
  members of each group of duplicates, the first occurrence included); and when the keys
  are distinct \<open>validate\<close> returns the validated rows.
\<close>

theorem validate_duplicate_keys:
  assumes "index_cols cls = Some cols" and "cols \<noteq> []"
    and "set cols \<subseteq> set (field_names cls)" and "distinct (field_names cls)"
    and "validate_records (model cls) (to_dict_records self) = Inr dumped"
    and "validated = map (map snd) dumped"
    and "keys = map (project (field_names cls) cols) validated"
  shows "((\<exists>dup. validate cls self = Inl (DuplicateRecords (name_processed cls) cols dup))
            \<longleftrightarrow> \<not> distinct keys) \<and>
         (\<forall>dup. validate cls self = Inl (DuplicateRecords (name_processed cls) cols dup) \<longrightarrow>
            columns dup = field_names cls \<and>
            rows dup = filter (\<lambda>r. 1 < count_list keys (project (field_names cls) cols r))
                              validated) \<and>
         (distinct keys \<longrightarrow> (\<exists>df. validate cls self = Inr df \<and> rows df = validated))"
proof -
  define dfv where "dfv = init cls (from_records dumped)"
  have dfv: "dfv = \<lparr> columns = field_names cls, index_names = [None],
                     index = default_index (length dumped), rows = validated \<rparr>"
    unfolding dfv_def assms(6) using assms(5,4) by (rule validated_frame)
  define P where "P = (\<lambda>r. 1 < count_list keys (project (field_names cls) cols r))"
  have flags: "map (\<lambda>k. 1 < count_list keys k) keys = map P validated"
    by (simp add: assms(7) P_def)
  have "\<not> distinct keys \<longleftrightarrow> (\<exists>k\<in>set keys. 1 < count_list keys k)"
    using distinct_count_list [of keys] by blast
  also have "\<dots> \<longleftrightarrow> (\<exists>r\<in>set validated. P r)"
    unfolding P_def by (subst assms(7)) simp
  finally have some: "filter P validated \<noteq> [] \<longleftrightarrow> \<not> distinct keys"
    by (simp add: filter_empty_conv)
  have cols_dfv: "columns dfv = field_names cls" and rows_dfv: "rows dfv = validated"
    and len_dfv: "length (index dfv) = length validated"
    by (simp_all add: dfv default_index_def assms(6))
  have keys_dfv: "map (project (field_names cls) cols) validated = keys"
    by (simp add: assms(7))
  have dup: "find_duplicates cls dfv None
               = Inr (dfv \<lparr> index := map snd (filter fst (zip (map P validated) (index dfv))),
                            rows := filter P validated \<rparr>)"
  proof (cases "validated = []")
    case True
    then have "index dfv = []"
      using len_dfv by simp
    then show ?thesis
      using True assms(1)
      by (simp add: find_duplicates_def duplicated_def select_mask_def rows_dfv)
  next
    case False
    then have "index dfv \<noteq> []"
      using len_dfv by auto
    moreover have "field_names cls \<noteq> []"
      using assms(2,3) by auto
    ultimately have "duplicated dfv (Some cols) = Inr (map P validated)"
      using assms(2,3) flags by (simp add: duplicated_def cols_dfv rows_dfv keys_dfv)
    then show ?thesis
      using assms(1) by (simp add: find_duplicates_def select_mask_def rows_dfv select_flags_rows)
  qed
  have v: "validate cls self =
     (if filter P validated \<noteq> []
      then Inl (DuplicateRecords (name_processed cls) cols
                 (dfv \<lparr> index := map snd (filter fst (zip (map P validated) (index dfv))),
                        rows := filter P validated \<rparr>))
      else Inr dfv)"
    using assms(1,5) dup by (simp add: validate_def dfv_def [symmetric])
  show ?thesis
    using some by (auto simp: v cols_dfv rows_dfv P_def)
qed

text \<open>
  Three accepted rows, the first and the third with \<open>id = 1\<close>: the error lists both of
  them.
\<close>

lemma same_key_rows_validated:
  "validate_records (model example_class) (to_dict_records same_key_rows)
     = Inr [[(''id'', PInt 1), (''name'', PStr ''A''), (''value'', PNone)],
            [(''id'', PInt 2), (''name'', PStr ''B''), (''value'', PNone)],
            [(''id'', PInt 1), (''name'', PStr ''C''), (''value'', PStr ''30'')]]"
  by code_simp

lemma example_field_names: "field_names example_class = [''id'', ''name'', ''value'']"
  by (simp add: field_names_def example_defs)

theorem validate_duplicate_keys_witness:
  "index_cols example_class = Some [''id''] \<and> [''id''] \<noteq> [] \<and>
   set [''id''] \<subseteq> set (field_names example_class) \<and> distinct (field_names example_class) \<and>
   validate_records (model example_class) (to_dict_records same_key_rows)
     = Inr [[(''id'', PInt 1), (''name'', PStr ''A''), (''value'', PNone)],
            [(''id'', PInt 2), (''name'', PStr ''B''), (''value'', PNone)],
            [(''id'', PInt 1), (''name'', PStr ''C''), (''value'', PStr ''30'')]] \<and>
   \<not> distinct [[PInt 1], [PInt 2], [PInt 1]] \<and>
   (\<exists>dup. validate example_class same_key_rows
             = Inl (DuplicateRecords ''example table'' [''id''] dup) \<and>
          rows dup = [[PInt 1, PStr ''A'', PNone], [PInt 1, PStr ''C'', PStr ''30'']])"
proof -
  have h1: "index_cols example_class = Some [''id'']"
    by (simp add: example_class_def)
  have h3: "set [''id''] \<subseteq> set (field_names example_class)"
    and h4: "distinct (field_names example_class)"
    by (simp_all add: example_field_names)
  note inst = validate_duplicate_keys
    [OF h1 _ h3 h4 same_key_rows_validated refl refl, unfolded name_processed_example]
  have keys: "map (project (field_names example_class) [''id''])
                (map (map snd)
                   [[(''id'', PInt 1), (''name'', PStr ''A''), (''value'', PNone)],
                    [(''id'', PInt 2), (''name'', PStr ''B''), (''value'', PNone)],
                    [(''id'', PInt 1), (''name'', PStr ''C''), (''value'', PStr ''30'')]])
              = [[PInt 1], [PInt 2], [PInt 1]]"
    by (simp add: example_field_names project_def)
  from inst [unfolded keys] show ?thesis
    using h1 h3 h4 same_key_rows_validated
    by (auto simp: example_field_names project_def)
qed

section \<open>Differences of tables\<close>

lemma select_none: "map snd (filter fst (zip (map (\<lambda>k. False) ks) xs)) = []"
  by (induction ks arbitrary: xs) (auto simp: zip_Cons1 split: list.splits)

lemma select_all:
  "length xs = length ks \<Longrightarrow> map snd (filter fst (zip (map (\<lambda>k. True) ks) xs)) = xs"
  by (induction ks arbitrary: xs) (auto simp: zip_Cons1 length_Suc_conv split: list.splits)

text \<open>
  Claim C6. For a table type with key columns \<open>cols\<close> (at least one) and a table \<open>d\<close>
  that has these columns, the difference of \<open>d\<close> with itself has the columns of \<open>d\<close> and
  no rows, and the difference of \<open>d\<close> with a table \<open>e\<close> that has the key columns and no
  rows is \<open>d\<close> itself. The empty table that the constructor builds for the schema is
  such an \<open>e\<close>, since it carries the model's fields as columns.
\<close>

theorem get_diff_self_and_empty:
  assumes "index_cols cls = Some cols" and "cols \<noteq> []"
    and "set cols \<subseteq> set (columns d)" and "length (index d) = length (rows d)"
    and "rows e = []" and "set cols \<subseteq> set (columns e)"
  shows "get_diff cls d d None = Inr (d \<lparr> index := [], rows := [] \<rparr>) \<and>
         get_diff cls d e None = Inr d"
proof -
  define keys where "keys = map (project (columns d) cols) (rows d)"
  have self_keys: "zip_cols d cols = keys"
    using assms(2) by (simp add: zip_cols_def keys_def)
  have other_keys: "zip_cols e cols = []"
    using assms(5) by (simp add: zip_cols_def)
  have len: "length keys = length (rows d)" "length (index d) = length keys"
    using assms(4) by (simp_all add: keys_def)
  have hit: "map (\<lambda>k. k \<notin> set keys) keys = map (\<lambda>k. False) keys"
    by simp
  have "get_diff cls d d None = Inr (d \<lparr> index := [], rows := [] \<rparr>)"
    using assms(1,3) len
    by (simp add: get_diff_def self_keys hit select_mask_def select_none del: map_eq_conv)
  moreover have "get_diff cls d e None = Inr d"
    using assms(1,3,6) len
    by (simp add: get_diff_def self_keys other_keys select_mask_def select_all)
  ultimately show ?thesis by simp
qed

lemma init_empty_example:
  "init example_class empty_frame = empty_frame \<lparr> columns := [''id'', ''name'', ''value''] \<rparr>"
  by (simp add: init_def field_names_def example_defs)

text \<open>The table of two rows against itself and against the empty table of its type.\<close>

theorem get_diff_self_and_empty_witness:
  "index_cols example_class = Some [''id''] \<and> [''id''] \<noteq> [] \<and>
   set [''id''] \<subseteq> set (columns two_rows) \<and> length (index two_rows) = length (rows two_rows) \<and>
   rows (init example_class empty_frame) = [] \<and>
   set [''id''] \<subseteq> set (columns (init example_class empty_frame)) \<and>
   get_diff example_class two_rows two_rows None
     = Inr \<lparr> columns = [''id'', ''name'', ''value''], index_names = [None], index = [], rows = [] \<rparr> \<and>
   get_diff example_class two_rows (init example_class empty_frame) None = Inr two_rows"
proof -
  have h1: "index_cols example_class = Some [''id'']"
    by (simp add: example_class_def)
  have h3: "set [''id''] \<subseteq> set (columns two_rows)"
    and h4: "length (index two_rows) = length (rows two_rows)"
    by (simp_all add: two_rows_def)
  have h5: "rows (init example_class empty_frame) = []"
    and h6: "set [''id''] \<subseteq> set (columns (init example_class empty_frame))"
    unfolding init_empty_example by (simp_all add: empty_frame_def)
  have "[''id''] \<noteq> []" by simp
  from get_diff_self_and_empty [OF h1 this h3 h4 h5 h6] show ?thesis
    using h1 h3 h4 h5 h6 by (simp add: two_rows_def)
qed

text \<open>
  The key columns are needed: with an empty \<open>index_cols\<close> the \<^verbatim>\<open>zip\<close> yields no tuple, the
  mask has length 0, and pandas refuses it for a table that has rows. (\<open>validate\<close> and
  \<open>add_or_update_records\<close> fail on such a table type as well.)
\<close>

lemma get_diff_without_key_columns:
  assumes "index_cols cls = Some []" and "rows d \<noteq> []"
  shows "get_diff cls d d None = Inl IndexError"
  using assms by (simp add: get_diff_def zip_cols_def select_mask_def)

section \<open>Concatenation\<close>

lemma col_pos_nth: "distinct cols \<Longrightarrow> i < length cols \<Longrightarrow> col_pos cols (cols ! i) = i"
proof (induction cols arbitrary: i)
  case Nil
  then show ?case by simp
next
  case (Cons c cols)
  then show ?case
    by (cases i) auto
qed

lemma project_own_columns:
  assumes "distinct cols" and "length r = length cols"
  shows "project cols cols r = r"
proof (rule nth_equalityI)
  show "length (project cols cols r) = length r"
    using assms(2) by (simp add: project_def)
next
  fix i assume "i < length (project cols cols r)"
  then have "i < length cols" by (simp add: project_def)
  then show "project cols cols r ! i = r ! i"
    using assms(1) by (simp add: project_def col_pos_nth)
qed

lemma align_own_columns:
  assumes "distinct cols" and "length r = length cols"
  shows "align cols cols r = r"
proof -
  have "align cols cols r = project cols cols r"
    by (simp add: align_def project_def)
  then show ?thesis
    using assms by (simp add: project_own_columns)
qed

lemma pd_concat_same_columns:
  assumes "well_formed a" and "well_formed b" and "columns b = columns a"
  shows "pd_concat a b
           = \<lparr> columns = columns a, index_names = [None],
               index = default_index (length (rows a) + length (rows b)),
               rows = rows a @ rows b \<rparr>"
proof -
  have a: "map (align (columns a) (columns a)) (rows a) = rows a"
    using assms(1) by (simp add: well_formed_def list_all_iff align_own_columns map_idI)
  have b: "map (align (columns a) (columns a)) (rows b) = rows b"
    using assms(1,2,3) by (simp add: well_formed_def list_all_iff align_own_columns map_idI)
  show ?thesis
    using a b assms(3) by (simp add: pd_concat_def)
qed

text \<open>
  Claim C8, as the code has it. \<open>concatenate\<close> does not write to its receiver: it builds
  a new frame with \<^verbatim>\<open>pd.concat\<close> and returns it (after validation, when asked). For two
  tables with the same columns, every object that existed before the call is unchanged,
  the receiver among them; the result is a new object that holds the rows of the receiver
  followed by the rows of \<open>other\<close> under fresh positional labels (\<open>u\<close> below), or the
  validated form of \<open>u\<close>; the only exception the call can raise is the one of validating
  \<open>u\<close>.
\<close>

theorem concatenate_method_returns_new:
  assumes "self < length st" and "other < length st"
    and "well_formed (st ! self)" and "well_formed (st ! other)"
    and "columns (st ! other) = columns (st ! self)" and "columns (st ! self) \<noteq> []"
    and "u = \<lparr> columns = columns (st ! self), index_names = [None],
                index = default_index (length (rows (st ! self)) + length (rows (st ! other))),
                rows = rows (st ! self) @ rows (st ! other) \<rparr>"
  shows "take (length st) (fst (concatenate_method cls st self other do_validate)) = st \<and>
         fst (concatenate_method cls st self other do_validate) ! self = st ! self \<and>
         (case snd (concatenate_method cls st self other do_validate) of
            Inl e \<Rightarrow> do_validate \<and> validate cls u = Inl e
          | Inr r \<Rightarrow> r = length st \<and>
              (if do_validate then validate cls u else Inr u)
                = Inr (fst (concatenate_method cls st self other do_validate) ! r))"
proof -
  have "init cls (pd_concat (st ! self) (st ! other)) = u"
    using assms(3,4,5,6) by (simp add: pd_concat_same_columns init_def assms(7))
  then have c: "concatenate cls (st ! self) (st ! other) do_validate
                  = (if do_validate then validate cls u else Inr u)"
    by (simp add: concatenate_def)
  show ?thesis
    using assms(1) c
    by (cases "validate cls u"; cases do_validate)
       (simp_all add: concatenate_method_def returning_new_def alloc_def nth_append)
qed

text \<open>A table of two rows and a table of one row, without validation.\<close>

theorem concatenate_method_returns_new_witness:
  "0 < length [two_rows, third_row] \<and> 1 < length [two_rows, third_row] \<and>
   well_formed two_rows \<and> well_formed third_row \<and>
   columns third_row = columns two_rows \<and> columns two_rows \<noteq> [] \<and>
   fst (concatenate_method example_class [two_rows, third_row] 0 1 False) ! 0 = two_rows \<and>
   snd (concatenate_method example_class [two_rows, third_row] 0 1 False) = Inr 2 \<and>
   rows (fst (concatenate_method example_class [two_rows, third_row] 0 1 False) ! 2)
     = [[PInt 2, PStr ''B'', PStr ''20''], [PInt 1, PStr ''A'', PStr ''10''],
        [PInt 3, PStr ''C'', PStr ''30'']]"
proof -
  have wf: "well_formed two_rows" "well_formed third_row"
    by (simp_all add: well_formed_def two_rows_def third_row_def)
  have cols: "columns third_row = columns two_rows" "columns two_rows \<noteq> []"
    by (simp_all add: two_rows_def third_row_def)
  have h1: "(0::nat) < 2" and h2: "(1::nat) < 2"
    by simp_all
  have nth: "[two_rows, third_row] ! 0 = two_rows" "[two_rows, third_row] ! 1 = third_row"
    by simp_all
  have len: "length [two_rows, third_row] = 2"
    by simp
  define R where "R = concatenate_method example_class [two_rows, third_row] 0 1 False"
  note inst = concatenate_method_returns_new
    [of 0 "[two_rows, third_row]" 1 _ example_class False, unfolded nth len,
     OF h1 h2 wf cols refl, folded R_def]
  have fst_R: "fst R ! 0 = two_rows"
    using inst by simp
  have snd_R: "snd R = Inr 2 \<and>
      fst R ! 2 = \<lparr> columns = columns two_rows, index_names = [None],
            index = default_index (length (rows two_rows) + length (rows third_row)),
            rows = rows two_rows @ rows third_row \<rparr>"
    using inst by (cases "snd R") simp_all
  then have rows_R: "rows (fst R ! 2)
     = [[PInt 2, PStr ''B'', PStr ''20''], [PInt 1, PStr ''A'', PStr ''10''],
        [PInt 3, PStr ''C'', PStr ''30'']]"
    by (simp add: two_rows_def third_row_def)
  show ?thesis
    using wf cols fst_R snd_R rows_R unfolding R_def by simp
qed

lemma concatenate_two_third:
  "concatenate_method example_class [two_rows, third_row] 0 1 True
     = ([two_rows, third_row,
         \<lparr> columns = [''id'', ''name'', ''value''], index_names = [None],
           index = [[PInt 0], [PInt 1], [PInt 2]],
           rows = [[PInt 2, PStr ''B'', PStr ''20''], [PInt 1, PStr ''A'', PStr ''10''],
                   [PInt 3, PStr ''C'', PStr ''30'']] \<rparr>], Inr 2)"
  by code_simp

text \<open>
  Claim C8 as stated fails: after \<open>d.concatenate(other)\<close> the receiver (object 0) still
  has its own two rows and not the row of \<open>other\<close>; the three rows are in the new object
  (object 2) that the call returns.
\<close>

theorem concatenate_in_place_counterexample:
  "rows (fst (concatenate_method example_class [two_rows, third_row] 0 1 True) ! 0)
     = [[PInt 2, PStr ''B'', PStr ''20''], [PInt 1, PStr ''A'', PStr ''10'']] \<and>
   rows third_row = [[PInt 3, PStr ''C'', PStr ''30'']] \<and>
   snd (concatenate_method example_class [two_rows, third_row] 0 1 True) = Inr 2 \<and>
   rows (fst (concatenate_method example_class [two_rows, third_row] 0 1 True) ! 2)
     = [[PInt 2, PStr ''B'', PStr ''20''], [PInt 1, PStr ''A'', PStr ''10''],
        [PInt 3, PStr ''C'', PStr ''30'']]"
  unfolding concatenate_two_third by (simp add: two_rows_def third_row_def)

section \<open>Adding and updating records\<close>

lemma set_index_keyed:
  assumes "set_index df icols = Inr k"
  shows "keyed icols (filter (\<lambda>c. c \<notin> set icols) (columns df)) k"
  using assms
  by (auto simp: set_index_def keyed_def project_def Let_def split: if_splits)

lemma set_insert_row: "set (insert_row p qs) = insert p (set qs)"
  by (induction qs) auto

lemma length_insert_row: "length (insert_row p qs) = Suc (length qs)"
  by (induction qs) auto

lemma set_sort_rows: "set (foldr insert_row ps []) = set ps"
  by (induction ps) (auto simp: set_insert_row)

lemma length_sort_rows: "length (foldr insert_row ps []) = length ps"
  by (induction ps) (auto simp: length_insert_row)

lemma sort_index_keyed:
  assumes "keyed icols ncols df" and "sort_index df = Inr df'"
  shows "keyed icols ncols df'"
proof -
  define s where "s = foldr insert_row (zip (index df) (rows df)) []"
  have df': "df' = df \<lparr> index := map fst s, rows := map snd s \<rparr>"
    using assms(2) by (auto simp: sort_index_def s_def Let_def split: if_splits)
  have "set s = set (zip (index df) (rows df))"
    by (simp add: s_def set_sort_rows)
  then have "snd ` set s \<subseteq> set (rows df)"
    by (auto dest: set_zip_rightD)
  then show ?thesis
    using assms(1) by (auto simp: keyed_def df')
qed

lemma loc_set_keyed:
  assumes "keyed icols ncols df"
  shows "keyed icols ncols (loc_set df idx col v)"
proof (cases "idx \<in> set (index df)")
  case True
  then show ?thesis
    using assms by (auto simp: loc_set_def keyed_def dest: set_zip_rightD)
next
  case False
  then show ?thesis
    using assms by (auto simp: loc_set_def keyed_def)
qed

lemma update_cols_keyed:
  "keyed icols ncols df \<Longrightarrow> keyed icols ncols (fst (update_cols icols record cols df))"
proof (induction cols arbitrary: df)
  case Nil
  then show ?case by simp
next
  case (Cons col cols)
  show ?case
  proof (cases "sort_index df")
    case (Inl e)
    then show ?thesis using Cons.prems by simp
  next
    case (Inr s)
    then have s: "keyed icols ncols s"
      using Cons.prems sort_index_keyed by blast
    show ?thesis
      using Inr s Cons.IH [OF loc_set_keyed [OF s]]
      by (auto split: sum.splits)
  qed
qed

lemma update_records_keyed:
  "keyed icols ncols df \<Longrightarrow>
   keyed icols ncols (fst (update_records m v icols cols records df))"
proof (induction records arbitrary: df)
  case Nil
  then show ?case by simp
next
  case (Cons r rs)
  show ?case
  proof (cases "if v then model_validate_dump m r else Inr r")
    case (Inl e)
    then show ?thesis using Cons.prems by simp
  next
    case (Inr r')
    obtain df' raised where u: "update_cols icols r' cols df = (df', raised)"
      by (cases "update_cols icols r' cols df")
    have k: "keyed icols ncols df'"
      using update_cols_keyed [OF Cons.prems, of r' cols] u by simp
    show ?thesis
      using Inr u k Cons.IH [OF k] by (cases raised) simp_all
  qed
qed

lemma insert_levels_fresh:
  assumes "distinct (map fst levels)" and "set (map fst levels) \<inter> set (columns df) = {}"
    and "\<forall>(n, vals)\<in>set levels. length vals = length (rows df)"
    and "\<forall>r\<in>set (rows df). length r = length (columns df)"
  shows "\<exists>df'. insert_levels levels df = (df', None) \<and>
           columns df' = rev (map fst levels) @ columns df \<and>
           index df' = index df \<and> index_names df' = index_names df \<and>
           length (rows df') = length (rows df) \<and>
           (\<forall>r\<in>set (rows df'). length r = length (columns df'))"
  using assms
proof (induction levels arbitrary: df)
  case Nil
  then show ?case by simp
next
  case (Cons level levels)
  obtain n vals where level: "level = (n, vals)" by (cases level)
  define df1 where "df1 = df \<lparr> columns := n # columns df,
                                rows := map (\<lambda>(v, r). v # r) (zip vals (rows df)) \<rparr>"
  have len: "length vals = length (rows df)"
    using Cons.prems(3) level by simp
  have fresh: "n \<notin> set (columns df)"
    using Cons.prems(2) level by auto
  have rows1: "length (rows df1) = length (rows df)"
    using len by (simp add: df1_def)
  have "\<exists>df'. insert_levels levels df1 = (df', None) \<and>
           columns df' = rev (map fst levels) @ columns df1 \<and>
           index df' = index df1 \<and> index_names df' = index_names df1 \<and>
           length (rows df') = length (rows df1) \<and>
           (\<forall>r\<in>set (rows df'). length r = length (columns df'))"
  proof (rule Cons.IH)
    show "distinct (map fst levels)"
      using Cons.prems(1) by simp
    show "set (map fst levels) \<inter> set (columns df1) = {}"
      using Cons.prems(1,2) level by (auto simp: df1_def)
    show "\<forall>(n, vals)\<in>set levels. length vals = length (rows df1)"
      using Cons.prems(3) rows1 by auto
    show "\<forall>r\<in>set (rows df1). length r = length (columns df1)"
      using Cons.prems(4) by (auto simp: df1_def dest: set_zip_rightD)
  qed
  then show ?case
    using fresh rows1 by (auto simp: level df1_def)
qed

lemma level_names_keyed:
  "index_names df = map Some icols \<Longrightarrow> level_names df = icols"
  by (auto simp: level_names_def intro!: nth_equalityI)

lemma reset_index_keyed:
  assumes "keyed icols ncols df" and "distinct icols" and "set icols \<inter> set ncols = {}"
  shows "\<exists>df'. reset_index df = (df', None) \<and> positional df' \<and>
           columns df' = icols @ ncols \<and>
           (\<forall>r\<in>set (rows df'). length r = length (columns df'))"
proof -
  define levels where
    "levels = map (\<lambda>i. (icols ! i, map (\<lambda>l. l ! i) (index df))) (rev [0..<length icols])"
  have names: "map fst levels = rev icols"
    by (simp add: levels_def rev_map [symmetric] o_def map_nth)
  have "\<exists>df'. insert_levels levels df = (df', None) \<and>
           columns df' = rev (map fst levels) @ columns df \<and>
           index df' = index df \<and> index_names df' = index_names df \<and>
           length (rows df') = length (rows df) \<and>
           (\<forall>r\<in>set (rows df'). length r = length (columns df'))"
  proof (rule insert_levels_fresh)
    show "distinct (map fst levels)"
      using assms(2) by (simp add: names)
    show "set (map fst levels) \<inter> set (columns df) = {}"
      using assms(1,3) by (simp add: names keyed_def)
    show "\<forall>(n, vals)\<in>set levels. length vals = length (rows df)"
      using assms(1) by (auto simp: levels_def keyed_def)
    show "\<forall>r\<in>set (rows df). length r = length (columns df)"
      using assms(1) by (simp add: keyed_def)
  qed
  then obtain df' where df': "insert_levels levels df = (df', None)"
      "columns df' = icols @ ncols" "\<forall>r\<in>set (rows df'). length r = length (columns df')"
    using assms(1) by (auto simp: names keyed_def)
  have "reset_index df
          = (df' \<lparr> index_names := [None], index := default_index (length (rows df')) \<rparr>, None)"
    using assms(1) df'(1)
    by (simp add: reset_index_def level_names_keyed keyed_def levels_def)
  then show ?thesis
    using df'(2,3) by (simp add: positional_def)
qed

text \<open>
  Claim C7, as the code has it. Let the key columns of the table type be distinct.
  If they are columns of the table (and there is at least one), \<^verbatim>\<open>set_index\<close> succeeds
  and, whatever happens in the loop (it may end normally or with any exception: a record
  that the model refuses, a key that a record lacks, labels that cannot be sorted), the
  \<^verbatim>\<open>finally\<close> block leaves the table with the default positional labels \<open>0, 1, ...\<close>,
  with the key columns back as ordinary columns in front of the other columns, and with
  complete rows. Otherwise \<^verbatim>\<open>set_index\<close> raises before anything is changed and the
  table is what it was. Nothing is said about the order of the rows: they are not put
  back in their original order.
\<close>

theorem add_or_update_records_exit_paths:
  assumes "index_cols cls = Some icols" and "distinct icols"
    and "df' = fst (add_or_update_records cls self records do_validate)"
  shows "if set icols \<subseteq> set (columns self) \<and> icols \<noteq> []
         then positional df' \<and>
              columns df' = icols @ filter (\<lambda>c. c \<notin> set icols) (columns self) \<and>
              list_all (\<lambda>r. length r = length (columns df')) (rows df')
         else df' = self \<and> snd (add_or_update_records cls self records do_validate) \<noteq> None"
proof (cases "set icols \<subseteq> set (columns self) \<and> icols \<noteq> []")
  case False
  then have "\<exists>e. set_index self icols = Inl e"
    by (auto simp: set_index_def)
  then show ?thesis
    using False assms(1,3) by (auto simp: add_or_update_records_def)
next
  case True
  define ncols where "ncols = filter (\<lambda>c. c \<notin> set icols) (columns self)"
  define rs where "rs = (case records of OneRecord d \<Rightarrow> [d] | RecordList ds \<Rightarrow> ds)"
  obtain k where k: "set_index self icols = Inr k"
    using True by (auto simp: set_index_def Let_def)
  obtain looped raised where
    l: "update_records (model cls) do_validate icols ncols rs k = (looped, raised)"
    by (cases "update_records (model cls) do_validate icols ncols rs k")
  have "keyed icols ncols k"
    using set_index_keyed [OF k] by (simp add: ncols_def)
  then have "keyed icols ncols looped"
    using update_records_keyed [of icols ncols k "model cls" do_validate ncols rs] l by simp
  moreover have "set icols \<inter> set ncols = {}"
    by (auto simp: ncols_def)
  ultimately obtain restored where r: "reset_index looped = (restored, None)"
      "positional restored" "columns restored = icols @ ncols"
      "\<forall>r\<in>set (rows restored). length r = length (columns restored)"
    using reset_index_keyed [of icols ncols looped] assms(2) by blast
  have "add_or_update_records cls self records do_validate = (restored, raised)"
    using assms(1) k l r(1)
    by (simp add: add_or_update_records_def ncols_def [symmetric] rs_def [symmetric])
  then show ?thesis
    using True r(2,3,4) assms(3) by (simp add: ncols_def list_all_iff)
qed

text \<open>
  The first record is applied and the second is refused by the model: the exception
  leaves the loop, and the table is back under positional labels with its three columns.
\<close>

lemma upsert_then_refused:
  "add_or_update_records example_class two_rows
     (RecordList [[(''id'', PInt 1), (''name'', PStr ''X'')], [(''id'', PStr ''x'')]]) True
   = (\<lparr> columns = [''id'', ''name'', ''value''], index_names = [None],
        index = [[PInt 0], [PInt 1]],
        rows = [[PInt 1, PStr ''X'', PNone], [PInt 2, PStr ''B'', PStr ''20'']] \<rparr>,
      Some (PydanticValidationError [FieldError ''id'' ''int_type'' (Some (PStr ''x''))]))"
  by code_simp

theorem add_or_update_records_exit_paths_witness:
  "index_cols example_class = Some [''id''] \<and> distinct [''id''] \<and>
   set [''id''] \<subseteq> set (columns two_rows) \<and>
   snd (add_or_update_records example_class two_rows
          (RecordList [[(''id'', PInt 1), (''name'', PStr ''X'')], [(''id'', PStr ''x'')]]) True)
     = Some (PydanticValidationError [FieldError ''id'' ''int_type'' (Some (PStr ''x''))]) \<and>
   positional (fst (add_or_update_records example_class two_rows
          (RecordList [[(''id'', PInt 1), (''name'', PStr ''X'')], [(''id'', PStr ''x'')]]) True)) \<and>
   columns (fst (add_or_update_records example_class two_rows
          (RecordList [[(''id'', PInt 1), (''name'', PStr ''X'')], [(''id'', PStr ''x'')]]) True))
     = [''id'', ''name'', ''value'']"
proof -
  have h1: "index_cols example_class = Some [''id'']"
    by (simp add: example_class_def)
  have h2: "distinct [''id'']"
    by simp
  have h3: "set [''id''] \<subseteq> set (columns two_rows)"
    and cols: "[''id''] @ filter (\<lambda>c. c \<notin> set [''id'']) (columns two_rows)
                 = [''id'', ''name'', ''value'']"
    by (simp_all add: two_rows_def)
  from add_or_update_records_exit_paths [OF h1 h2 refl, of two_rows
      "RecordList [[(''id'', PInt 1), (''name'', PStr ''X'')], [(''id'', PStr ''x'')]]" True]
  show ?thesis
    using h1 h3 cols by (simp add: upsert_then_refused)
qed

text \<open>
  Claim C7 as stated fails for the order of the rows: a table with the default labels
  holds the keys 2 and 1 in this order; after a call that returns normally the rows are
  in the order 1, 2 (the loop sorts the table by its key, and \<^verbatim>\<open>reset_index\<close> numbers
  the rows as it finds them).
\<close>

lemma upsert_two_rows:
  "add_or_update_records example_class two_rows
     (OneRecord [(''id'', PInt 1), (''name'', PStr ''X'')]) True
   = (\<lparr> columns = [''id'', ''name'', ''value''], index_names = [None],
        index = [[PInt 0], [PInt 1]],
        rows = [[PInt 1, PStr ''X'', PNone], [PInt 2, PStr ''B'', PStr ''20'']] \<rparr>, None)"
  by code_simp

theorem add_or_update_records_row_order_counterexample:
  "positional two_rows \<and>
   map (\<lambda>r. r ! 0) (rows two_rows) = [PInt 2, PInt 1] \<and>
   snd (add_or_update_records example_class two_rows
          (OneRecord [(''id'', PInt 1), (''name'', PStr ''X'')]) True) = None \<and>
   map (\<lambda>r. r ! 0)
     (rows (fst (add_or_update_records example_class two_rows
                   (OneRecord [(''id'', PInt 1), (''name'', PStr ''X'')]) True)))
     = [PInt 1, PInt 2]"
  unfolding upsert_two_rows by (simp add: two_rows_def positional_def default_index_def)

lemma upsert_one_row_validated:
  "model_validate_dump \<lparr> model_fields = example_fields dflt, validate_before_fields = (\<lambda>data. data) \<rparr>
     [(''id'', PInt 1), (''name'', PStr ''X'')]
   = Inr [(''id'', PInt 1), (''name'', PStr ''X''), (''value'', dflt)]"
  by (simp add: model_validate_dump_def validate_before_def generic_validation_def
      is_missing_def example_fields_def check_int_def check_opt_str_def)

lemma one_row_keyed:
  "set_index one_row [''id'']
     = Inr \<lparr> columns = [''name'', ''value''], index_names = [Some ''id''],
             index = [[PInt 1]], rows = [[PStr ''A'', PStr ''10'']] \<rparr>"
  by (simp add: set_index_def one_row_def project_def)

lemma one_row_loop:
  "update_cols [''id''] [(''id'', PInt 1), (''name'', PStr ''X''), (''value'', dflt)]
     [''name'', ''value'']
     \<lparr> columns = [''name'', ''value''], index_names = [Some ''id''],
       index = [[PInt 1]], rows = [[PStr ''A'', PStr ''10'']] \<rparr>
   = (\<lparr> columns = [''name'', ''value''], index_names = [Some ''id''],
        index = [[PInt 1]], rows = [[PStr ''X'', dflt]] \<rparr>, None)"
  by (simp add: sort_index_def sortable_def dict_get_def loc_set_def)

lemma one_row_restored:
  "reset_index \<lparr> columns = [''name'', ''value''], index_names = [Some ''id''],
                 index = [[PInt 1]], rows = [[PStr ''X'', dflt]] \<rparr>
   = (\<lparr> columns = [''id'', ''name'', ''value''], index_names = [None], index = [[PInt 0]],
        rows = [[PInt 1, PStr ''X'', dflt]] \<rparr>, None)"
  by (simp add: reset_index_def level_names_def default_index_def)

text \<open>
  Claim C1, as the code has it. With validation, the record is replaced by the dump of
  the model instance, which has every field of the model: a field that the input did not
  supply comes back with its default. The loop then writes every non-key column of the
  row from that dump. In the scenario, whatever the default \<open>dflt\<close> of \<open>value\<close> is, the
  table ends with the single row \<open>(1, X, dflt)\<close> and no exception is raised: \<open>name\<close> is
  updated, \<open>value\<close> is overwritten by its default, and the row count stays 1.
\<close>

theorem upsert_overwrites_unsupplied_field:
  "add_or_update_records
     \<lparr> class_name = ''ExampleTable'',
       model = \<lparr> model_fields = example_fields dflt, validate_before_fields = (\<lambda>data. data) \<rparr>,
       index_cols = Some [''id''] \<rparr>
     one_row (OneRecord [(''id'', PInt 1), (''name'', PStr ''X'')]) True
   = (\<lparr> columns = [''id'', ''name'', ''value''], index_names = [None], index = [[PInt 0]],
        rows = [[PInt 1, PStr ''X'', dflt]] \<rparr>, None)"
proof -
  have "filter (\<lambda>c. c \<notin> set [''id'']) (columns one_row) = [''name'', ''value'']"
    by (simp add: one_row_def)
  then show ?thesis
    by (simp add: add_or_update_records_def one_row_keyed upsert_one_row_validated
        one_row_loop one_row_restored del: update_cols.simps)
qed

text \<open>
  Claim C1 as stated fails: with the default \<^verbatim>\<open>None\<close> of the scenario the cell \<open>value\<close>
  does not keep \<open>10\<close>, it becomes \<^verbatim>\<open>None\<close>.
\<close>

theorem upsert_keeps_value_counterexample:
  "fst (add_or_update_records example_class one_row
          (OneRecord [(''id'', PInt 1), (''name'', PStr ''X'')]) True)
     = one_row \<lparr> rows := [[PInt 1, PStr ''X'', PNone]] \<rparr> \<and>
   rows (fst (add_or_update_records example_class one_row
          (OneRecord [(''id'', PInt 1), (''name'', PStr ''X'')]) True))
     \<noteq> [[PInt 1, PStr ''X'', PStr ''10'']]"
  by code_simp

section \<open>What \<open>validate\<close> does to its receiver\<close>

text \<open>
  The dictionary that \<open>validate_before\<close> edits in place is the one made for the keyword
  arguments; on the heap, the loop, the pops and the hook leave there what the functional
  \<open>validate_before\<close> computes, and touch no other object.
\<close>

lemma update_same: "h ! r = ob \<Longrightarrow> h[r := ob] = h"
  by (metis list_update_id)

lemma get_dict_update: "r < length h \<Longrightarrow> get_dict (h[r := Dict d]) r = d"
  by (simp add: get_dict_def)

lemma get_dict_new: "get_dict (h @ [Dict d]) (length h) = d"
  by (simp add: get_dict_def)

lemma map_of_middle:
  "k \<notin> fst ` set pre \<Longrightarrow> map_of (pre @ (k, v) # post) k = Some v"
  by (induction pre) auto

lemma dict_setitem_middle:
  assumes "k \<notin> fst ` set pre" and "k \<notin> fst ` set post"
  shows "dict_setitem k v' (pre @ (k, v) # post) = pre @ (k, v') # post"
proof -
  have keep: "map (\<lambda>(a, w). if a = k then (a, v') else (a, w)) xs = xs"
    if "k \<notin> fst ` set xs" for xs :: pydict
    using that by (induction xs) auto
  show ?thesis
    using assms by (simp add: dict_setitem_def keep)
qed

lemma items_loop_scan:
  assumes "data < length h" and "h ! data = Dict (pre @ rest)"
    and "distinct (map fst (pre @ rest))"
  shows "items_loop opt data (map fst rest) h
           = (h[data := Dict (pre @ fst (scan_items opt rest))], snd (scan_items opt rest))"
  using assms
proof (induction rest arbitrary: pre h)
  case Nil
  then show ?case
    by (simp add: update_same)
next
  case (Cons kv rest)
  obtain k v where kv: "kv = (k, v)" by (cases kv)
  obtain d rm where s: "scan_items opt rest = (d, rm)"
    by (cases "scan_items opt rest")
  have fresh: "k \<notin> fst ` set pre" "k \<notin> fst ` set rest"
    using Cons.prems(3) kv by auto
  have cur: "get_dict h data = pre @ (k, v) # rest"
    using Cons.prems(2) kv by (simp add: get_dict_def)
  have look: "map_of (get_dict h data) k = Some v"
    unfolding cur using fresh(1) by (rule map_of_middle)
  have step: "items_loop opt data (map fst rest) h'
                = (h'[data := Dict ((pre @ [(k, w)]) @ d)], rm)"
    if "h' ! data = Dict ((pre @ [(k, w)]) @ rest)" and "data < length h'" for h' w
  proof -
    have "distinct (map fst ((pre @ [(k, w)]) @ rest))"
      using Cons.prems(3) kv by auto
    from Cons.IH [OF that(2) that(1) this] show ?thesis
      by (simp add: s)
  qed
  show ?case
  proof (cases "is_missing v \<and> k \<notin> set opt")
    case True
    define h' where "h' = setitem_in_place h data k PNone"
    have h': "h' = h[data := Dict ((pre @ [(k, PNone)]) @ rest)]"
      using fresh by (simp add: h'_def setitem_in_place_def cur dict_setitem_middle)
    have "items_loop opt data (map fst rest) h'
            = (h'[data := Dict ((pre @ [(k, PNone)]) @ d)], rm)"
      using Cons.prems(1) by (intro step) (simp_all add: h')
    then show ?thesis
      using True look by (simp add: kv s h'_def [symmetric]) (simp add: h')
  next
    case False
    have "items_loop opt data (map fst rest) h = (h[data := Dict ((pre @ [(k, v)]) @ d)], rm)"
      using Cons.prems(1,2) kv by (intro step) simp_all
    then show ?thesis
      using False look by (auto simp: kv s)
  qed
qed

lemma fold_pop_in_place:
  assumes "data < length h" and "h ! data = Dict d"
  shows "fold (pop_in_place data) ks h = h[data := Dict (fold dict_pop ks d)]"
  using assms
proof (induction ks arbitrary: h d)
  case Nil
  then show ?case by (simp add: update_same)
next
  case (Cons k ks)
  define h' where "h' = pop_in_place data k h"
  have h': "h' = h[data := Dict (dict_pop k d)]"
    using Cons.prems by (simp add: h'_def pop_in_place_def get_dict_def)
  have "fold (pop_in_place data) ks h' = h'[data := Dict (fold dict_pop ks (dict_pop k d))]"
    using Cons.prems(1) by (intro Cons.IH) (simp_all add: h')
  then show ?case
    by (simp add: h'_def [symmetric]) (simp add: h')
qed

lemma validate_before_obj_value:
  assumes "data < length h" and "h ! data = Dict d" and "distinct (map fst d)"
  shows "validate_before_obj m h data = (h[data := Dict (validate_before m d)], data)"
proof -
  obtain d' rm where s: "scan_items (optional_fields m) d = (d', rm)"
    by (cases "scan_items (optional_fields m) d")
  have cur: "get_dict h data = d"
    using assms(2) by (simp add: get_dict_def)
  have loop: "items_loop (optional_fields m) data (map fst d) h = (h[data := Dict d'], rm)"
    using items_loop_scan [of data h "[]" d "optional_fields m"] assms by (simp add: s)
  have pops: "fold (pop_in_place data) rm (h[data := Dict d'])
                = h[data := Dict (fold dict_pop rm d')]"
    using fold_pop_in_place [of data "h[data := Dict d']" d' rm] assms(1) by simp
  show ?thesis
    using assms(1)
    by (simp add: validate_before_obj_def cur loop pops get_dict_update validate_before_def
        generic_validation_def s)
qed

lemma model_validate_dump_obj_value:
  assumes "record < length h" and "h ! record = Dict d" and "distinct (map fst d)"
  shows "model_validate_dump_obj m h record =
           (case model_validate_dump m d of
              Inl e \<Rightarrow> (h @ [Dict (validate_before m d)], Inl e)
            | Inr vals \<Rightarrow> (h @ [Dict (validate_before m d), Dict vals], Inr (Suc (length h))))"
proof -
  have cur: "get_dict h record = d"
    using assms(2) by (simp add: get_dict_def)
  have vb: "validate_before_obj m (h @ [Dict d]) (length h)
              = (h @ [Dict (validate_before m d)], length h)"
    using validate_before_obj_value [of "length h" "h @ [Dict d]" d m] assms(3) by simp
  show ?thesis
    by (cases "validate_fields (model_fields m) (validate_before m d)")
       (simp add: model_validate_dump_obj_def new_obj_def cur vb get_dict_new
          model_validate_dump_def)
qed

lemma new_objs_value: "new_objs h obs = (h @ obs, [length h..<length h + length obs])"
proof (induction obs arbitrary: h)
  case Nil
  then show ?case by simp
next
  case (Cons ob obs)
  have "[length h..<length h + Suc (length obs)]
          = length h # [Suc (length h)..<length h + Suc (length obs)]"
    by (rule upt_conv_Cons) simp
  then show ?case
    using Cons [of "h @ [ob]"] by (simp add: new_obj_def)
qed

lemma validate_records_obj_value:
  assumes "list_all2 (\<lambda>r d. r < length h \<and> h ! r = Dict d \<and> distinct (map fst d)) records ds"
  shows "\<exists>ext. fst (validate_records_obj m h records) = h @ ext \<and>
           (case validate_records m ds of
              Inl e \<Rightarrow> snd (validate_records_obj m h records) = Inl e
            | Inr dumped \<Rightarrow>
                (\<exists>rs. snd (validate_records_obj m h records) = Inr rs \<and>
                      map (get_dict (h @ ext)) rs = dumped))"
  using assms
proof (induction records arbitrary: h ds)
  case Nil
  then show ?case by simp
next
  case (Cons r records)
  obtain d ds' where ds: "ds = d # ds'"
      and r: "r < length h" "h ! r = Dict d" "distinct (map fst d)"
      and rest: "list_all2 (\<lambda>r d. r < length h \<and> h ! r = Dict d \<and> distinct (map fst d)) records ds'"
    using Cons.prems by (auto simp: list_all2_Cons1)
  note step = model_validate_dump_obj_value [OF r, of m]
  show ?case
  proof (cases "model_validate_dump m d")
    case (Inl e)
    then show ?thesis
      using step by (simp add: ds)
  next
    case (Inr vals)
    define h1 where "h1 = h @ [Dict (validate_before m d), Dict vals]"
    have s1: "model_validate_dump_obj m h r = (h1, Inr (Suc (length h)))"
      using step Inr by (simp add: h1_def)
    have "list_all2 (\<lambda>r d. r < length h1 \<and> h1 ! r = Dict d \<and> distinct (map fst d)) records ds'"
      using rest by (rule list_all2_mono) (auto simp: h1_def nth_append)
    from Cons.IH [OF this] obtain ext where ext:
      "fst (validate_records_obj m h1 records) = h1 @ ext"
      "case validate_records m ds' of
         Inl e \<Rightarrow> snd (validate_records_obj m h1 records) = Inl e
       | Inr dumped \<Rightarrow>
           (\<exists>rs. snd (validate_records_obj m h1 records) = Inr rs \<and>
                 map (get_dict (h1 @ ext)) rs = dumped)"
      by blast
    have first: "get_dict (h1 @ ext) (Suc (length h)) = vals"
      by (simp add: h1_def get_dict_def nth_append)
    obtain h2 res where v: "validate_records_obj m h1 records = (h2, res)"
      by (cases "validate_records_obj m h1 records")
    have h2: "h2 = h @ ([Dict (validate_before m d), Dict vals] @ ext)"
      using ext(1) v by (simp add: h1_def)
    show ?thesis
    proof (cases "validate_records m ds'")
      case (Inl e)
      then have "res = Inl e" using ext(2) v by simp
      then show ?thesis
        using Inr Inl s1 v h2 by (auto simp: ds)
    next
      case (Inr dumped)
      then obtain rs where rs: "res = Inr rs" "map (get_dict (h1 @ ext)) rs = dumped"
        using ext(2) v by auto
      show ?thesis
        using \<open>model_validate_dump m d = Inr vals\<close> Inr s1 v h2 rs first
        by (auto simp: ds h1_def)
    qed
  qed
qed


lemma to_dict_records_keys: "\<forall>d\<in>set (to_dict_records df). map fst d = take (length d) (columns df)"
  by (auto simp: to_dict_records_def take_zip [symmetric] map_fst_zip_take min_def)

lemma to_dict_obj_value:
  assumes "self < length h" and "h ! self = Frame df" and "distinct (columns df)"
  shows "to_dict_obj h self
           = (h @ map Dict (to_dict_records df),
              [length h..<length h + length (to_dict_records df)])"
    and "list_all2 (\<lambda>r d. r < length (h @ map Dict (to_dict_records df)) \<and>
                         (h @ map Dict (to_dict_records df)) ! r = Dict d \<and>
                         distinct (map fst d))
           [length h..<length h + length (to_dict_records df)] (to_dict_records df)"
proof -
  show "to_dict_obj h self
           = (h @ map Dict (to_dict_records df),
              [length h..<length h + length (to_dict_records df)])"
    using assms(2) by (simp add: to_dict_obj_def get_frame_def new_objs_value)
  have "distinct (map fst d)" if "d \<in> set (to_dict_records df)" for d
    using that assms(3) to_dict_records_keys [of df] by (simp add: distinct_take)
  then show "list_all2 (\<lambda>r d. r < length (h @ map Dict (to_dict_records df)) \<and>
                         (h @ map Dict (to_dict_records df)) ! r = Dict d \<and>
                         distinct (map fst d))
           [length h..<length h + length (to_dict_records df)] (to_dict_records df)"
    by (auto simp: list_all2_conv_all_nth nth_append)
qed

lemma validate_obj_value:
  assumes "self < length h" and "h ! self = Frame df" and "distinct (columns df)"
  shows "\<exists>ext. fst (validate_obj cls h self) = h @ ext \<and>
           (case validate cls df of
              Inl e \<Rightarrow> snd (validate_obj cls h self) = Inl e
            | Inr dfv \<Rightarrow>
                (\<exists>r. snd (validate_obj cls h self) = Inr r \<and> length h \<le> r \<and>
                     r < length (h @ ext) \<and> (h @ ext) ! r = Frame dfv))"
proof -
  define recs where "recs = to_dict_records df"
  define h1 where "h1 = h @ map Dict recs"
  define rs where "rs = [length h..<length h + length recs]"
  have td: "to_dict_obj h self = (h1, rs)"
    using to_dict_obj_value(1) [OF assms] by (simp add: h1_def rs_def recs_def)
  have "list_all2 (\<lambda>r d. r < length h1 \<and> h1 ! r = Dict d \<and> distinct (map fst d)) rs recs"
    using to_dict_obj_value(2) [OF assms] by (simp add: h1_def rs_def recs_def)
  from validate_records_obj_value [OF this, of "model cls"] obtain ext where ext:
    "fst (validate_records_obj (model cls) h1 rs) = h1 @ ext"
    "case validate_records (model cls) recs of
       Inl e \<Rightarrow> snd (validate_records_obj (model cls) h1 rs) = Inl e
     | Inr dumped \<Rightarrow>
         (\<exists>ds. snd (validate_records_obj (model cls) h1 rs) = Inr ds \<and>
               map (get_dict (h1 @ ext)) ds = dumped)"
    by blast
  define h2 where "h2 = h1 @ ext"
  obtain res where vr: "validate_records_obj (model cls) h1 rs = (h2, res)"
    using ext(1) by (cases "validate_records_obj (model cls) h1 rs") (simp add: h2_def)
  have h2: "h2 = h @ (map Dict recs @ ext)"
    by (simp add: h2_def h1_def)
  show ?thesis
  proof (cases "validate_records (model cls) recs")
    case (Inl e)
    then have "res = Inl e"
      using ext(2) vr by simp
    then show ?thesis
      using Inl h2 by (auto simp: validate_obj_def td vr validate_def recs_def [symmetric])
  next
    case (Inr dumped)
    then obtain ds where ds: "res = Inr ds" "map (get_dict h2) ds = dumped"
      using ext(2) vr by (auto simp: h2_def)
    define dfv where "dfv = init cls (from_records dumped)"
    have got: "get_frame (h2 @ [Frame dfv]) (length h2) = dfv"
      "get_frame (h2 @ [Frame dfv, Frame dup]) (Suc (length h2)) = dup" for dup
      by (simp_all add: get_frame_def nth_append)
    have pure: "validate cls df =
       (case index_cols cls of
          None \<Rightarrow> Inr dfv
        | Some cols \<Rightarrow>
            (case find_duplicates cls dfv None of
               Inl e \<Rightarrow> Inl e
             | Inr dup \<Rightarrow>
                 if 0 < length (rows dup)
                 then Inl (DuplicateRecords (name_processed cls) cols dup)
                 else Inr dfv))"
      using Inr unfolding dfv_def by (simp add: validate_def recs_def [symmetric] Let_def)
    have obj: "validate_obj cls h self =
       (case index_cols cls of
          None \<Rightarrow> (h2 @ [Frame dfv], Inr (length h2))
        | Some cols \<Rightarrow>
            (case find_duplicates cls dfv None of
               Inl e \<Rightarrow> (h2 @ [Frame dfv], Inl e)
             | Inr dup \<Rightarrow>
                 if 0 < length (rows dup)
                 then (h2 @ [Frame dfv, Frame dup],
                       Inl (DuplicateRecords (name_processed cls) cols dup))
                 else (h2 @ [Frame dfv, Frame dup], Inr (length h2))))"
      by (simp add: validate_obj_def td vr ds new_obj_def dfv_def [symmetric] got
          split: option.splits sum.splits)
    show ?thesis
    proof (cases "index_cols cls")
      case None
      then show ?thesis
        using pure obj h2
        by (auto simp: nth_append intro!: exI [of _ "map Dict recs @ ext @ [Frame dfv]"])
    next
      case (Some cols)
      show ?thesis
      proof (cases "find_duplicates cls dfv None")
        case (Inl e)
        then show ?thesis
          using Some pure obj h2
          by (auto intro!: exI [of _ "map Dict recs @ ext @ [Frame dfv]"])
      next
        case (Inr dup)
        then show ?thesis
          using Some pure obj h2
          by (auto simp: nth_append
              intro!: exI [of _ "map Dict recs @ ext @ [Frame dfv, Frame dup]"])
      qed
    qed
  qed
qed

lemma validate_records_dumped:
  "validate_records m records = Inr dumped \<Longrightarrow>
   dumped = map (\<lambda>record. snd (validate_fields (model_fields m) (validate_before m record)))
                records"
proof (induction records arbitrary: dumped)
  case Nil
  then show ?case by simp
next
  case (Cons r records)
  show ?case
  proof (cases "field_errors m r = []")
    case True
    then show ?thesis
      using Cons by (auto simp: model_validate_dump_accepted split: sum.splits)
  next
    case False
    then show ?thesis
      using Cons.prems by (simp add: model_validate_dump_refused)
  qed
qed

lemma validate_result_frame:
  assumes "validate cls df = Inr dfv" and "distinct (field_names cls)"
  shows "dfv = \<lparr> columns = field_names cls, index_names = [None],
                 index = default_index (length (rows df)),
                 rows = map (\<lambda>record. map snd (snd (validate_fields (model_fields (model cls))
                                                      (validate_before (model cls) record))))
                            (to_dict_records df) \<rparr>"
proof -
  obtain dumped where d: "validate_records (model cls) (to_dict_records df) = Inr dumped"
    using assms(1) by (auto simp: validate_def split: sum.splits)
  have "dfv = init cls (from_records dumped)"
    using assms(1) d by (auto simp: validate_def Let_def split: option.splits sum.splits if_splits)
  moreover have "length dumped = length (rows df)"
    using validate_records_dumped [OF d] by (simp add: to_dict_records_def)
  ultimately show ?thesis
    using validated_frame [OF d assms(2)] validate_records_dumped [OF d]
    by (simp add: o_def)
qed

text \<open>
  Claim C10. Let \<open>self\<close> refer to a frame with distinct column labels, in any heap.
  After \<open>validate\<close>, every object that was in the heap is what it was, the receiver among
  them: the dictionaries that are edited in place, and everything else the call creates,
  are new objects. When validation raises, the exception is the one computed from the
  receiver's rows. When it succeeds, the result is a new object, and it is the frame built
  from the validated records: its columns are the model's fields, its labels are the
  default ones, and its \<open>i\<close>-th row holds the values that field validation gives for the
  normalised \<open>i\<close>-th record of the receiver.
\<close>

theorem validate_obj_leaves_receiver:
  assumes "self < length h" and "h ! self = Frame df"
    and "distinct (columns df)" and "distinct (field_names cls)"
  shows "take (length h) (fst (validate_obj cls h self)) = h \<and>
         fst (validate_obj cls h self) ! self = Frame df \<and>
         (case snd (validate_obj cls h self) of
            Inl e \<Rightarrow> validate cls df = Inl e
          | Inr r \<Rightarrow>
              length h \<le> r \<and> validate cls df = Inr (get_frame (fst (validate_obj cls h self)) r) \<and>
              fst (validate_obj cls h self) ! r
                = Frame \<lparr> columns = field_names cls, index_names = [None],
                          index = default_index (length (rows df)),
                          rows = map (\<lambda>record. map snd (snd (validate_fields
                                         (model_fields (model cls))
                                         (validate_before (model cls) record))))
                                     (to_dict_records df) \<rparr>)"
proof -
  from validate_obj_value [OF assms(1,2,3), of cls] obtain ext where ext:
    "fst (validate_obj cls h self) = h @ ext"
    "case validate cls df of
       Inl e \<Rightarrow> snd (validate_obj cls h self) = Inl e
     | Inr dfv \<Rightarrow>
         (\<exists>r. snd (validate_obj cls h self) = Inr r \<and> length h \<le> r \<and>
              r < length (h @ ext) \<and> (h @ ext) ! r = Frame dfv)"
    by blast
  have old: "take (length h) (fst (validate_obj cls h self)) = h"
    "fst (validate_obj cls h self) ! self = Frame df"
    using assms(1,2) by (simp_all add: ext(1) nth_append)
  show ?thesis
  proof (cases "validate cls df")
    case (Inl e)
    then show ?thesis
      using ext(2) old by simp
  next
    case (Inr dfv)
    then obtain r where r: "snd (validate_obj cls h self) = Inr r" "length h \<le> r"
        "(h @ ext) ! r = Frame dfv"
      using ext(2) by auto
    have "get_frame (fst (validate_obj cls h self)) r = dfv"
      using r(3) by (simp add: ext(1) get_frame_def)
    then show ?thesis
      using old r Inr validate_result_frame [OF Inr assms(4)] by (simp add: ext(1))
  qed
qed

lemma validate_obj_two_rows:
  "snd (validate_obj example_class [Frame two_rows, Frame bad_rows] 0) = Inr 8"
  by code_simp

lemma validate_obj_bad_rows:
  "snd (validate_obj example_class [Frame two_rows, Frame bad_rows] 1)
     = Inl (ValidatingError ''example table''
              (PydanticValidationError
                 [FieldError ''id'' ''int_type'' (Some (PStr ''x'')),
                  FieldError ''name'' ''string_type'' (Some (PInt 3))]))"
  by code_simp

text \<open>
  A heap with an acceptable table and one that is refused: the first call returns a new
  object (the ninth of the heap, after the dictionaries made on the way) that holds the
  validated rows; the second raises; both leave the two tables as they were.
\<close>

theorem validate_obj_leaves_receiver_witness:
  "(0::nat) < length [Frame two_rows, Frame bad_rows] \<and>
   [Frame two_rows, Frame bad_rows] ! 0 = Frame two_rows \<and>
   [Frame two_rows, Frame bad_rows] ! 1 = Frame bad_rows \<and>
   distinct (columns two_rows) \<and> distinct (columns bad_rows) \<and>
   distinct (field_names example_class) \<and>
   take 2 (fst (validate_obj example_class [Frame two_rows, Frame bad_rows] 0))
     = [Frame two_rows, Frame bad_rows] \<and>
   snd (validate_obj example_class [Frame two_rows, Frame bad_rows] 0) = Inr 8 \<and>
   fst (validate_obj example_class [Frame two_rows, Frame bad_rows] 0) ! 8 = Frame two_rows \<and>
   take 2 (fst (validate_obj example_class [Frame two_rows, Frame bad_rows] 1))
     = [Frame two_rows, Frame bad_rows] \<and>
   validate example_class bad_rows
     = Inl (ValidatingError ''example table''
              (PydanticValidationError
                 [FieldError ''id'' ''int_type'' (Some (PStr ''x'')),
                  FieldError ''name'' ''string_type'' (Some (PInt 3))]))"
proof -
  define H where "H = [Frame two_rows, Frame bad_rows]"
  have len: "length H = 2" and h0: "(0::nat) < length H" and h1: "(1::nat) < length H"
    and n0: "H ! 0 = Frame two_rows" and n1: "H ! 1 = Frame bad_rows"
    by (simp_all add: H_def)
  have d0: "distinct (columns two_rows)" and d1: "distinct (columns bad_rows)"
    by (simp_all add: two_rows_def bad_rows_def)
  have df: "distinct (field_names example_class)"
    by (simp add: example_field_names)
  have rows0: "\<lparr> columns = field_names example_class, index_names = [None],
        index = default_index (length (rows two_rows)),
        rows = map (\<lambda>record. map snd (snd (validate_fields (model_fields (model example_class))
                                                (validate_before (model example_class) record))))
                   (to_dict_records two_rows) \<rparr> = two_rows"
    by code_simp
  note a = validate_obj_leaves_receiver [OF h0 n0 d0 df, unfolded len rows0]
  note b = validate_obj_leaves_receiver [OF h1 n1 d1 df, unfolded len]
  have "snd (validate_obj example_class H 0) = Inr 8"
    unfolding H_def by (rule validate_obj_two_rows)
  then have A: "take 2 (fst (validate_obj example_class H 0)) = H \<and>
      snd (validate_obj example_class H 0) = Inr 8 \<and>
      fst (validate_obj example_class H 0) ! 8 = Frame two_rows"
    using a by simp
  have "snd (validate_obj example_class H 1)
     = Inl (ValidatingError ''example table''
              (PydanticValidationError
                 [FieldError ''id'' ''int_type'' (Some (PStr ''x'')),
                  FieldError ''name'' ''string_type'' (Some (PInt 3))]))"
    unfolding H_def by (rule validate_obj_bad_rows)
  then have B: "take 2 (fst (validate_obj example_class H 1)) = H \<and>
     validate example_class bad_rows
     = Inl (ValidatingError ''example table''
              (PydanticValidationError
                 [FieldError ''id'' ''int_type'' (Some (PStr ''x'')),
                  FieldError ''name'' ''string_type'' (Some (PInt 3))]))"
    using b by simp
  show ?thesis
    using A B d0 d1 df unfolding H_def by simp
qed

section \<open>Equality of tables\<close>












end
